theory Spec2Isabelle
  imports Main "HOL-Library.Sublist"
begin

section \<open>Characters and the \<^verbatim>\<open>std::string\<close> operations used by \<^verbatim>\<open>main.cpp\<close>\<close>

definition dquote :: char where
  "dquote = CHR 0x22"

definition backslash :: char where
  "backslash = CHR 0x5C"

definition newline :: char where
  "newline = CHR 0x0A"

definition space :: char where
  "space = CHR 0x20"

text \<open>
  \<^verbatim>\<open>s.find(c)\<close>: the index of the first occurrence of the character, \<open>None\<close> standing
  for \<^verbatim>\<open>std::string::npos\<close>.
\<close>

fun find_chr :: "char \<Rightarrow> string \<Rightarrow> nat option" where
  "find_chr c [] = None"
| "find_chr c (x # xs) = (if x = c then Some 0 else map_option Suc (find_chr c xs))"

text \<open>
  \<^verbatim>\<open>s.find(c, pos)\<close>: the first occurrence at an index \<open>\<ge> pos\<close>; \<^verbatim>\<open>npos\<close> when
  \<open>pos\<close> is at or beyond the end.
\<close>

definition find_chr_from :: "char \<Rightarrow> string \<Rightarrow> nat \<Rightarrow> nat option" where
  "find_chr_from c s pos = map_option (\<lambda>i. i + pos) (find_chr c (drop pos s))"

text \<open>\<^verbatim>\<open>s.find(pat)\<close> for a string pattern: the index of the first occurrence.\<close>

fun find_str :: "string \<Rightarrow> string \<Rightarrow> nat option" where
  "find_str pat [] = (if pat = [] then Some 0 else None)"
| "find_str pat (x # xs) =
     (if prefix pat (x # xs) then Some 0 else map_option Suc (find_str pat xs))"

text \<open>
  \<^verbatim>\<open>s.substr(pos, n)\<close>. The library throws when \<open>pos > s.size()\<close>; the only call
  site passes a position at or after which a character was found, so it does not throw.
\<close>

definition substr :: "string \<Rightarrow> nat \<Rightarrow> nat \<Rightarrow> string" where
  "substr s pos n = take n (drop pos s)"

text \<open>\<^verbatim>\<open>s.insert(pos, t)\<close> with \<open>pos \<le> s.size()\<close>.\<close>

definition insert_at :: "string \<Rightarrow> nat \<Rightarrow> string \<Rightarrow> string" where
  "insert_at s pos t = take pos s @ t @ drop pos s"

section \<open>Platform\<close>

text \<open>The two outcomes of \<^verbatim>\<open>#ifdef _WIN32\<close>.\<close>

datatype platform = Windows | Posix

definition EXECUTABLE_EXTENSION :: "platform \<Rightarrow> string" where
  "EXECUTABLE_EXTENSION pf = (case pf of Windows \<Rightarrow> ''.exe'' | Posix \<Rightarrow> [])"

section \<open>Paths\<close>

text \<open>
  A \<^verbatim>\<open>std::filesystem::path\<close> that has a root directory is the list of the elements
  that iterating over it yields after the root, outermost first: its file names, and
  one empty element at the end when the pathname ends in a separator. \<open>[]\<close> is the
  root directory itself (\<^verbatim>\<open>p == p.root_path()\<close>). As for the library's comparison,
  a doubled separator makes no difference. A default-constructed (empty) path is
  \<open>None\<close> of \<open>path option\<close>. There is one root: on Windows every path is on the drive
  of the working directory.
\<close>

type_synonym path = "string list"

text \<open>
  \<^verbatim>\<open>p / "name"\<close> for the string literals of the source (\<^verbatim>\<open>Sail.toml\<close>, \<^verbatim>\<open>src\<close>,
  \<^verbatim>\<open>target\<close>, \<^verbatim>\<open>debug\<close>, \<^verbatim>\<open>release\<close>, \<^verbatim>\<open>build\<close>, \<^verbatim>\<open>CMakeLists.txt\<close>), each a
  single file name, appended to a path that does not end in a separator. Lemma
  \<open>path_join_plain\<close> shows that this is \<open>path_join\<close> below on such operands.
\<close>

definition path_append :: "path \<Rightarrow> string \<Rightarrow> path" where
  "path_append p name = p @ [name]"

definition parent_path :: "path \<Rightarrow> path" where
  "parent_path p = butlast p"

text \<open>
  \<^verbatim>\<open>operator/\<close> of \<^verbatim>\<open>std::filesystem::path\<close> for any right operand, as the program
  applies it to the project name read from the manifest. The separators are \<^verbatim>\<open>/\<close>,
  and on Windows also the backslash.
\<close>

definition is_separator :: "platform \<Rightarrow> char \<Rightarrow> bool" where
  "is_separator pf c =
     (case pf of Posix \<Rightarrow> c = CHR ''/'' | Windows \<Rightarrow> c = CHR ''/'' \<or> c = backslash)"

text \<open>
  The elements of a pathname without root: the text is cut at the separators, a run
  of separators counts once, and a separator at the end leaves an empty last
  element. The second argument holds the characters of the element read so far.
\<close>

fun names_acc :: "platform \<Rightarrow> string \<Rightarrow> string \<Rightarrow> string list" where
  "names_acc pf acc [] = [acc]"
| "names_acc pf acc (c # cs) =
     (if is_separator pf c
      then (if acc = [] then names_acc pf [] cs else acc # names_acc pf [] cs)
      else names_acc pf (acc @ [c]) cs)"

definition relative_names :: "platform \<Rightarrow> string \<Rightarrow> string list" where
  "relative_names pf s =
     (let r = dropWhile (is_separator pf) s
      in if r = [] then [] else names_acc pf [] r)"

text \<open>
  A Windows root name in front of a pathname: a drive, that is a letter and a colon.
  Network and device prefixes are not modelled. POSIX pathnames have no root name.
\<close>

definition has_drive :: "platform \<Rightarrow> string \<Rightarrow> bool" where
  "has_drive pf s =
     (case pf of
        Posix \<Rightarrow> False
      | Windows \<Rightarrow>
          (case s of
             c # d # rest \<Rightarrow>
               d = CHR '':'' \<and>
               c \<in> set ''abcdefghijklmnopqrstuvwxyzABCDEFGHIJKLMNOPQRSTUVWXYZ''
           | _ \<Rightarrow> False))"

text \<open>
  The rules of \<^verbatim>\<open>operator/=\<close>, for a left operand \<open>p\<close> with a root directory:
  \<^item> a right operand with a root directory replaces everything below the root (on
    POSIX it is absolute and replaces \<open>p\<close>; on Windows it replaces \<open>p\<close> when it also
    names the drive, and keeps the drive of \<open>p\<close> when it names none);
  \<^item> an empty right operand adds a separator when \<open>p\<close> ends in a file name;
  \<^item> any other right operand is appended after one separator, and \<open>p\<close> keeps no
    separator of its own at the end.
  A drive in the right operand is taken to be the drive of \<open>p\<close>; a right operand on
  another drive is outside this model of one root.
\<close>

definition path_join :: "platform \<Rightarrow> path \<Rightarrow> string \<Rightarrow> path" where
  "path_join pf p s =
     (let q = (if has_drive pf s then drop 2 s else s)
      in if q \<noteq> [] \<and> is_separator pf (hd q) then relative_names pf q
         else if q = [] then (if p \<noteq> [] \<and> last p \<noteq> [] then p @ [[]] else p)
         else (if p \<noteq> [] \<and> last p = [] then butlast p else p) @ relative_names pf q)"


text \<open>
  Lines 28 to 30: \<^verbatim>\<open>target_dir / (project_name + std::string(EXECUTABLE_EXTENSION))\<close>.
\<close>

definition get_executable_path :: "platform \<Rightarrow> path \<Rightarrow> string \<Rightarrow> path" where
  "get_executable_path pf target_dir project_name =
     path_join pf target_dir (project_name @ EXECUTABLE_EXTENSION pf)"

section \<open>\<^verbatim>\<open>quote_path\<close>\<close>

text \<open>
  The loop of the non-Windows branch:
  \<^verbatim>\<open>while ((pos = result.find(' ', pos)) != npos) { result.insert(pos, "\\"); pos += 2; }\<close>
\<close>

function quote_loop :: "string \<Rightarrow> nat \<Rightarrow> string" where
  "quote_loop result pos =
     (case find_chr_from space result pos of
        None \<Rightarrow> result
      | Some p \<Rightarrow> quote_loop (insert_at result p [backslash]) (p + 2))"
  by pat_completeness auto
termination
proof (relation "measure (\<lambda>(result, pos). length result - pos)")
  show "wf (measure (\<lambda>(result, pos). length result - pos))"
    by simp
next
  fix result :: string and pos p :: nat
  assume found: "find_chr_from space result pos = Some p"
  have bound: "i < length s" if "find_chr c s = Some i" for c s i
    using that by (induction s arbitrary: i) (auto split: if_splits)
  from found obtain i where i: "find_chr space (drop pos result) = Some i" and p: "p = i + pos"
    by (auto simp: find_chr_from_def)
  from bound [OF i] have "i + pos < length result"
    by simp
  with p show "((insert_at result p [backslash], p + 2), (result, pos))
      \<in> measure (\<lambda>(result, pos). length result - pos)"
    by (simp add: insert_at_def)
qed

definition quote_path :: "platform \<Rightarrow> string \<Rightarrow> string" where
  "quote_path pf path =
     (case pf of
        Windows \<Rightarrow> [dquote] @ path @ [dquote]
      | Posix \<Rightarrow> quote_loop path 0)"

section \<open>Reading the project name from the manifest\<close>

text \<open>
  The successive results of \<^verbatim>\<open>std::getline(toml_file, line)\<close> on a stream holding
  \<open>content\<close>: the text is cut at every newline, and a call that extracts nothing at
  end-of-file fails, so a final newline does not open another line. The first
  argument holds the characters of the line read so far.
\<close>

fun getlines_acc :: "string \<Rightarrow> string \<Rightarrow> string list" where
  "getlines_acc acc [] = (if acc = [] then [] else [acc])"
| "getlines_acc acc (c # cs) =
     (if c = newline then acc # getlines_acc [] cs else getlines_acc (acc @ [c]) cs)"

definition getlines :: "string \<Rightarrow> string list" where
  "getlines content = getlines_acc [] content"

definition name_marker :: string where
  \<open>name_marker = ''name = "''\<close>

text \<open>
  The body of the scanning loop on one line (lines 80 to 87 of \<^verbatim>\<open>main.cpp\<close>):
  \<open>Some name\<close> when \<^verbatim>\<open>project_name\<close> is assigned and the loop left by \<^verbatim>\<open>break\<close>,
  \<open>None\<close> when the loop goes on to the next line. \<^verbatim>\<open>line.find('"') + 1\<close> is
  computed in \<^verbatim>\<open>size_t\<close>, where \<^verbatim>\<open>npos + 1\<close> is 0. The test
  \<^verbatim>\<open>start != npos\<close> always passes, \<open>start\<close> being 0 or an index plus one.
\<close>

definition extract_name :: "string \<Rightarrow> string option" where
  "extract_name line =
     (if find_str name_marker line \<noteq> None then
        (let start = (case find_chr dquote line of None \<Rightarrow> 0 | Some i \<Rightarrow> i + 1);
             end_pos = find_chr_from dquote line start
         in case end_pos of
              None \<Rightarrow> None
            | Some e \<Rightarrow> Some (substr line start (e - start)))
      else None)"

text \<open>
  \<^verbatim>\<open>while (std::getline(toml_file, line)) { ... }\<close>: the value of \<^verbatim>\<open>project_name\<close>
  after the loop, which is the empty string when no line assigned it.
\<close>

fun scan_lines :: "string list \<Rightarrow> string" where
  "scan_lines [] = []"
| "scan_lines (line # rest) =
     (case extract_name line of
        Some name \<Rightarrow> name
      | None \<Rightarrow> scan_lines rest)"

datatype read_error = NotFound | MissingField

text \<open>
  The reader on the text of an opened manifest: the scan, then the test
  \<^verbatim>\<open>if (project_name.empty())\<close> of line 90.
\<close>

definition read_name_from :: "string \<Rightarrow> read_error + string" where
  "read_name_from content =
     (let project_name = scan_lines (getlines content)
      in if project_name = [] then Inl MissingField else Inr project_name)"

text \<open>
  The manifest text written by \<^verbatim>\<open>handle_new_command\<close> and \<^verbatim>\<open>handle_init_command\<close>
  (the same \<^verbatim>\<open>fmt::format\<close> template in both).
\<close>

definition sail_toml_content :: "string \<Rightarrow> string" where
  \<open>sail_toml_content project_name =
     ''[project]\<newline>name = "'' @ project_name @
     ''"\<newline>version = "0.1.0"\<newline>\<newline>[dependencies]\<newline>''\<close>

text \<open>
  The extraction rule in the words of the specification, for comparison with
  \<open>extract_name\<close>: the text strictly between the double quote that ends the first
  occurrence of the marker and the next double quote after it.
\<close>

definition spec_name_after_marker :: "string \<Rightarrow> string option" where
  "spec_name_after_marker line =
     (case find_str name_marker line of
        None \<Rightarrow> None
      | Some m \<Rightarrow>
          (let rest = drop (m + length name_marker) line
           in case find_chr dquote rest of
                None \<Rightarrow> None
              | Some e \<Rightarrow> Some (take e rest)))"

section \<open>The file system, the terminal and external commands\<close>

datatype node = File string | Dir

type_synonym filesystem = "path \<Rightarrow> node option"

text \<open>
  One constructor for each \<^verbatim>\<open>fmt::print\<close> call of the build and run flows:
  \<^item> \<open>Err_manifest_not_found\<close>: \<^verbatim>\<open>Error: Sail.toml not found in current directory or any parent directory. Run 'sail init' first.\<close>
  \<^item> \<open>Err_read_manifest\<close>: \<^verbatim>\<open>Error: Failed to read Sail.toml\<close>
  \<^item> \<open>Err_no_project_name\<close>: \<^verbatim>\<open>Error: Could not find project name in Sail.toml\<close>
  \<^item> \<open>Err_no_src\<close>: \<^verbatim>\<open>Error: src directory not found\<close>
  \<^item> \<open>Err_create_cmake\<close>: \<^verbatim>\<open>Error: Failed to create CMakeLists.txt\<close>
  \<^item> \<open>Err_configure\<close>: \<^verbatim>\<open>Error: CMake configuration failed\<close>
  \<^item> \<open>Err_build\<close>: \<^verbatim>\<open>Error: Build failed\<close>
  \<^item> \<open>Err_exception\<close>: \<^verbatim>\<open>Error: {}\<close> with the text of a caught exception
  \<^item> \<open>Err_executable_not_found\<close>: \<^verbatim>\<open>Error: Executable not found at {}\<close>
  \<^item> \<open>Warn_executable_not_found\<close>: \<^verbatim>\<open>Warning: Executable not found at expected location\<close>
  \<^item> \<open>Msg_compiling_mode\<close>: \<^verbatim>\<open>Compiling {}...\<close> with \<^verbatim>\<open>release\<close> (\<open>True\<close>) or \<^verbatim>\<open>debug\<close>
  \<^item> \<open>Msg_running\<close>: the line announcing the executable's file name
  \<^item> \<open>Msg_configuring\<close>: \<^verbatim>\<open>Configuring project...\<close>
  \<^item> \<open>Msg_compiling\<close>: \<^verbatim>\<open>Compiling...\<close>
  \<^item> \<open>Msg_finished\<close>: \<^verbatim>\<open>Finished {} [{}] target(s) in target/{}/\<close>
\<close>

datatype message =
    Err_manifest_not_found
  | Err_read_manifest
  | Err_no_project_name
  | Err_no_src
  | Err_create_cmake
  | Err_configure
  | Err_build
  | Err_exception
  | Err_executable_not_found string
  | Warn_executable_not_found
  | Msg_compiling_mode bool
  | Msg_running string
  | Msg_configuring
  | Msg_compiling
  | Msg_finished bool

text \<open>
  What the program can observe and change: the working directory, the file system,
  whether a path may be created or opened for writing, the commands handed to
  \<^verbatim>\<open>std::system\<close> so far with their exit status (oldest first), and the messages
  printed so far.
\<close>

record world =
  cwd :: path
  files :: filesystem
  writable :: "path \<Rightarrow> bool"
  issued :: "(string \<times> int) list"
  printed :: "message list"

text \<open>
  What the program is built for and runs on: the platform selected at compile time,
  \<^verbatim>\<open>std::filesystem::path::string()\<close>, and the effect of a command line executed by
  \<^verbatim>\<open>std::system\<close> (its exit status and what it leaves in the file system). The
  external command is assumed to return.
\<close>

record host =
  platform :: platform
  path_string :: "path \<Rightarrow> string"
  execute :: "string \<Rightarrow> filesystem \<Rightarrow> int \<times> filesystem"

definition EXIT_SUCCESS :: int where
  "EXIT_SUCCESS = 0"

definition EXIT_FAILURE :: int where
  "EXIT_FAILURE = 1"

definition print :: "message \<Rightarrow> world \<Rightarrow> world" where
  "print m w = w\<lparr>printed := printed w @ [m]\<rparr>"

definition path_exists :: "world \<Rightarrow> path \<Rightarrow> bool" where
  "path_exists w p = (files w p \<noteq> None)"

definition system_call :: "host \<Rightarrow> string \<Rightarrow> world \<Rightarrow> int \<times> world" where
  "system_call h cmd w =
     (let (rc, fs) = execute h cmd (files w)
      in (rc, w\<lparr>files := fs, issued := issued w @ [(cmd, rc)]\<rparr>))"

text \<open>
  \<^verbatim>\<open>std::ifstream f(p)\<close> and what the stream then yields: the text of a regular
  file; \<open>None\<close> when the stream is not good after opening (a missing file, and on
  Windows a directory). On the other platforms a directory opens and every read from
  it fails, so the stream yields no line.
\<close>

definition open_read :: "platform \<Rightarrow> filesystem \<Rightarrow> path \<Rightarrow> string option" where
  "open_read pf fs p =
     (case fs p of
        Some (File content) \<Rightarrow> Some content
      | Some Dir \<Rightarrow> (case pf of Windows \<Rightarrow> None | Posix \<Rightarrow> Some [])
      | None \<Rightarrow> None)"

text \<open>
  \<^verbatim>\<open>std::filesystem::create_directories(p)\<close>, from the outermost directory inwards:
  an existing directory is kept, a missing one is created, and the call throws
  (\<open>False\<close>) when a name on the way is a regular file or a directory cannot be
  created. Directories created before the throw stay.
\<close>

fun make_dirs :: "world \<Rightarrow> path list \<Rightarrow> bool \<times> world" where
  "make_dirs w [] = (True, w)"
| "make_dirs w (d # ds) =
     (case files w d of
        Some Dir \<Rightarrow> make_dirs w ds
      | Some (File content) \<Rightarrow> (False, w)
      | None \<Rightarrow>
          if writable w d then make_dirs (w\<lparr>files := (files w)(d \<mapsto> Dir)\<rparr>) ds
          else (False, w))"

definition create_directories :: "world \<Rightarrow> path \<Rightarrow> bool \<times> world" where
  "create_directories w p = make_dirs w (map (\<lambda>n. take n p) [1..<Suc (length p)])"

section \<open>\<^verbatim>\<open>build_project\<close>\<close>

text \<open>
  The walk of lines 55 to 62; \<open>ex\<close> is \<^verbatim>\<open>std::filesystem::exists\<close>. The result is
  \<^verbatim>\<open>project_root\<close> after the loop, \<open>None\<close> when it is still empty.
\<close>

function locate_root :: "(path \<Rightarrow> bool) \<Rightarrow> path \<Rightarrow> path option" where
  "locate_root ex current_path =
     (if current_path \<noteq> [] then
        (if ex (path_append current_path ''Sail.toml'') then Some current_path
         else locate_root ex (parent_path current_path))
      else None)"
  by pat_completeness auto
termination
  by (relation "measure (\<lambda>(ex, current_path). length current_path)")
    (simp_all add: parent_path_def)

text \<open>Lines 70 to 93: open the manifest, scan it, reject an empty name.\<close>

definition read_project_name ::
  "platform \<Rightarrow> filesystem \<Rightarrow> path \<Rightarrow> read_error + string" where
  "read_project_name pf fs manifest_path =
     (case open_read pf fs manifest_path of
        None \<Rightarrow> Inl NotFound
      | Some content \<Rightarrow> read_name_from content)"

text \<open>The text produced by the \<^verbatim>\<open>fmt::format\<close> call of lines 114 to 135.\<close>

definition cmake_content :: "string \<Rightarrow> string" where
  \<open>cmake_content project_name =
     ''cmake_minimum_required(VERSION 3.21)\<newline>\<newline>project('' @ project_name @
     '' VERSION 0.1.0 LANGUAGES CXX)\<newline>\<newline>set(CMAKE_CXX_STANDARD 17)\<newline>'' @
     ''set(CMAKE_CXX_STANDARD_REQUIRED ON)\<newline>\<newline># Collect all source files\<newline>'' @
     ''file(GLOB_RECURSE SOURCES src/*.cpp src/*.c)\<newline>\<newline># Create executable\<newline>'' @
     ''add_executable('' @ project_name @ '' ${SOURCES})\<newline>\<newline>'' @
     ''# Set output directory based on build type\<newline>set_target_properties('' @
     project_name @ '' PROPERTIES\<newline>'' @
     ''    RUNTIME_OUTPUT_DIRECTORY_DEBUG "${CMAKE_SOURCE_DIR}/target/debug"\<newline>'' @
     ''    RUNTIME_OUTPUT_DIRECTORY_RELEASE "${CMAKE_SOURCE_DIR}/target/release"\<newline>'' @
     '')\<newline>\<newline># Ensure consistent output name across platforms\<newline>'' @
     ''set_target_properties('' @ project_name @ '' PROPERTIES OUTPUT_NAME "'' @
     project_name @ ''")\<newline>''\<close>

text \<open>
  Lines 112 to 143: generate \<^verbatim>\<open>CMakeLists.txt\<close> unless something of that name
  exists. \<open>False\<close> is the early return after a failed \<^verbatim>\<open>std::ofstream\<close> open.
\<close>

definition ensure_build_description :: "path \<Rightarrow> string \<Rightarrow> world \<Rightarrow> bool \<times> world" where
  "ensure_build_description project_root project_name w =
     (let cmake_path = path_append project_root ''CMakeLists.txt''
      in if \<not> path_exists w cmake_path then
           (if \<not> writable w cmake_path then (False, print Err_create_cmake w)
            else (True, w\<lparr>files := (files w)(cmake_path \<mapsto> File (cmake_content project_name))\<rparr>))
         else (True, w))"

definition cmake_configure_cmd :: "host \<Rightarrow> string \<Rightarrow> path \<Rightarrow> path \<Rightarrow> string" where
  "cmake_configure_cmd h build_mode project_root build_dir =
     ''cmake -DCMAKE_BUILD_TYPE='' @ build_mode @
     '' -S '' @ quote_path (platform h) (path_string h project_root) @
     '' -B '' @ quote_path (platform h) (path_string h build_dir)"

definition cmake_build_cmd :: "host \<Rightarrow> string \<Rightarrow> path \<Rightarrow> string" where
  "cmake_build_cmd h build_mode build_dir =
     ''cmake --build '' @ quote_path (platform h) (path_string h build_dir) @
     '' --config '' @ build_mode"

text \<open>Lines 149 to 177: configure, build, and the path of the executable.\<close>

definition configure_and_build ::
  "host \<Rightarrow> string \<Rightarrow> path \<Rightarrow> path \<Rightarrow> path \<Rightarrow> string \<Rightarrow> world \<Rightarrow> (int \<times> path option) \<times> world" where
  "configure_and_build h build_mode project_root build_dir target_dir project_name w =
     (let (configure_result, w1) =
            system_call h (cmake_configure_cmd h build_mode project_root build_dir) w
      in if configure_result \<noteq> 0 then ((EXIT_FAILURE, None), print Err_configure w1)
         else
           (let (build_result, w2) = system_call h (cmake_build_cmd h build_mode build_dir) w1
            in if build_result \<noteq> 0 then ((EXIT_FAILURE, None), print Err_build w2)
               else ((EXIT_SUCCESS,
                      Some (get_executable_path (platform h) target_dir project_name)), w2)))"

text \<open>Lines 103 to 105 and 146: the build mode and the directories derived from it.\<close>

definition build_mode_of :: "bool \<Rightarrow> string" where
  "build_mode_of release_mode = (if release_mode then ''Release'' else ''Debug'')"

definition target_subdir_of :: "bool \<Rightarrow> string" where
  "target_subdir_of release_mode = (if release_mode then ''release'' else ''debug'')"

definition target_dir_of :: "path \<Rightarrow> bool \<Rightarrow> path" where
  "target_dir_of project_root release_mode =
     path_append (path_append project_root ''target'') (target_subdir_of release_mode)"

definition build_dir_of :: "path \<Rightarrow> bool \<Rightarrow> path" where
  "build_dir_of project_root release_mode =
     path_append (target_dir_of project_root release_mode) ''build''"

text \<open>Lines 107 to 185: the body of the \<^verbatim>\<open>try\<close> block and its handlers.\<close>

definition build_in_root ::
  "host \<Rightarrow> bool \<Rightarrow> path \<Rightarrow> string \<Rightarrow> world \<Rightarrow> (int \<times> path option) \<times> world" where
  "build_in_root h release_mode project_root project_name w =
     (case create_directories w (target_dir_of project_root release_mode) of
        (False, w1) \<Rightarrow> ((EXIT_FAILURE, None), print Err_exception w1)
      | (True, w1) \<Rightarrow>
          (case ensure_build_description project_root project_name w1 of
             (False, w2) \<Rightarrow> ((EXIT_FAILURE, None), w2)
           | (True, w2) \<Rightarrow>
               (case create_directories w2 (build_dir_of project_root release_mode) of
                  (False, w3) \<Rightarrow> ((EXIT_FAILURE, None), print Err_exception w3)
                | (True, w3) \<Rightarrow>
                    configure_and_build h (build_mode_of release_mode) project_root
                      (build_dir_of project_root release_mode)
                      (target_dir_of project_root release_mode) project_name w3)))"

definition build_project :: "host \<Rightarrow> bool \<Rightarrow> world \<Rightarrow> (int \<times> path option) \<times> world" where
  "build_project h release_mode w =
     (case locate_root (path_exists w) (cwd w) of
        None \<Rightarrow> ((EXIT_FAILURE, None), print Err_manifest_not_found w)
      | Some project_root \<Rightarrow>
          (case read_project_name (platform h) (files w) (path_append project_root ''Sail.toml'') of
             Inl NotFound \<Rightarrow> ((EXIT_FAILURE, None), print Err_read_manifest w)
           | Inl MissingField \<Rightarrow> ((EXIT_FAILURE, None), print Err_no_project_name w)
           | Inr project_name \<Rightarrow>
               if \<not> path_exists w (path_append project_root ''src'')
               then ((EXIT_FAILURE, None), print Err_no_src w)
               else build_in_root h release_mode project_root project_name w))"

section \<open>The command handlers\<close>

text \<open>
  \<^verbatim>\<open>exists\<close>, \<^verbatim>\<open>string()\<close> and \<^verbatim>\<open>filename().string()\<close> on a path that may be
  the empty path.
\<close>

definition opt_exists :: "world \<Rightarrow> path option \<Rightarrow> bool" where
  "opt_exists w p = (case p of None \<Rightarrow> False | Some q \<Rightarrow> path_exists w q)"

definition opt_string :: "host \<Rightarrow> path option \<Rightarrow> string" where
  "opt_string h p = (case p of None \<Rightarrow> [] | Some q \<Rightarrow> path_string h q)"

definition opt_filename :: "path option \<Rightarrow> string" where
  "opt_filename p = (case p of None \<Rightarrow> [] | Some q \<Rightarrow> if q = [] then [] else last q)"

definition handle_run_command :: "host \<Rightarrow> bool \<Rightarrow> string list \<Rightarrow> world \<Rightarrow> int \<times> world" where
  "handle_run_command h run_release run_args w =
     (let ((build_result, executable_path), w1) =
            build_project h run_release (print (Msg_compiling_mode run_release) w)
      in if build_result \<noteq> EXIT_SUCCESS then (build_result, w1)
         else if \<not> opt_exists w1 executable_path
         then (EXIT_FAILURE, print (Err_executable_not_found (opt_string h executable_path)) w1)
         else
           (let w2 = print (Msg_running (opt_filename executable_path)) w1;
                run_command =
                  foldl (\<lambda>cmd arg. cmd @ '' '' @ quote_path (platform h) arg)
                    (quote_path (platform h) (opt_string h executable_path)) run_args
            in system_call h run_command w2))"

definition handle_build_command :: "host \<Rightarrow> bool \<Rightarrow> world \<Rightarrow> int \<times> world" where
  "handle_build_command h build_release w =
     (let ((build_result, executable_path), w1) =
            build_project h build_release (print Msg_compiling (print Msg_configuring w))
      in if build_result \<noteq> EXIT_SUCCESS then (build_result, w1)
         else if opt_exists w1 executable_path
         then (EXIT_SUCCESS, print (Msg_finished build_release) w1)
         else (EXIT_SUCCESS, print Warn_executable_not_found w1))"

text \<open>A host for running the model on examples: a POSIX rendering of paths.\<close>

definition posix_string :: "path \<Rightarrow> string" where
  "posix_string p = (if p = [] then ''/'' else concat (map (\<lambda>name. ''/'' @ name) p))"

text \<open>Example hosts and worlds on which the model is run.\<close>

definition demo_files :: filesystem where
  "demo_files =
     [[''work'', ''demo'', ''Sail.toml''] \<mapsto> File (sail_toml_content ''demo''),
      [''work'', ''demo'', ''src''] \<mapsto> Dir]"

definition demo_world :: world where
  "demo_world =
     \<lparr>cwd = [''work'', ''demo'', ''src''], files = demo_files, writable = (\<lambda>p. True),
      issued = [], printed = []\<rparr>"

text \<open>A toolchain whose two commands exit with the given codes and write nothing.\<close>

definition scripted_host :: "int \<Rightarrow> int \<Rightarrow> host" where
  "scripted_host configure_code build_code =
     \<lparr>platform = Posix, path_string = posix_string,
      execute = (\<lambda>cmd fs. (if prefix ''cmake -D'' cmd then configure_code else build_code, fs))\<rparr>"

text \<open>A manifest in the root directory of the file system, and nowhere else.\<close>

definition root_manifest_world :: world where
  "root_manifest_world =
     \<lparr>cwd = [''work''],
      files = [[''Sail.toml''] \<mapsto> File (sail_toml_content ''demo''), [''src''] \<mapsto> Dir,
               [''work''] \<mapsto> Dir],
      writable = (\<lambda>p. True), issued = [], printed = []\<rparr>"

text \<open>The demo project after the build description was generated, and after an edit.\<close>

definition generated_world :: world where
  "generated_world =
     demo_world\<lparr>files := (files demo_world)(path_append [''work'', ''demo''] ''CMakeLists.txt'' \<mapsto>
        File (cmake_content ''demo''))\<rparr>"

definition edited_world :: world where
  "edited_world =
     generated_world\<lparr>files := (files generated_world)
        (path_append [''work'', ''demo''] ''CMakeLists.txt'' \<mapsto> File ''# edited by hand'')\<rparr>"

section \<open>Facts about the string operations\<close>

lemma find_chr_None_iff: "find_chr c s = None \<longleftrightarrow> c \<notin> set s"
  by (induction s) auto

lemma find_chr_Some_iff:
  "find_chr c s = Some i \<longleftrightarrow> i < length s \<and> s ! i = c \<and> c \<notin> set (take i s)"
proof (induction s arbitrary: i)
  case Nil
  then show ?case by simp
next
  case (Cons x xs)
  show ?case
  proof (cases i)
    case 0
    then show ?thesis by auto
  next
    case (Suc j)
    then show ?thesis using Cons.IH [of j] by auto
  qed
qed

lemma find_chr_split:
  "find_chr c s = Some i \<longleftrightarrow> (\<exists>a b. s = a @ c # b \<and> c \<notin> set a \<and> i = length a)"
proof
  assume "find_chr c s = Some i"
  then have i: "i < length s" "s ! i = c" "c \<notin> set (take i s)"
    by (simp_all add: find_chr_Some_iff)
  then have "s = take i s @ c # drop (Suc i) s"
    using id_take_nth_drop [of i s] by simp
  with i show "\<exists>a b. s = a @ c # b \<and> c \<notin> set a \<and> i = length a"
    by (metis length_take min.absorb2 less_imp_le_nat)
next
  assume "\<exists>a b. s = a @ c # b \<and> c \<notin> set a \<and> i = length a"
  then show "find_chr c s = Some i"
    by (auto simp: find_chr_Some_iff nth_append)
qed

lemma find_str_None_iff: "find_str pat s = None \<longleftrightarrow> \<not> sublist pat s"
proof (induction s)
  case Nil
  then show ?case by simp
next
  case (Cons x xs)
  then show ?case
    by (auto simp: sublist_Cons_right)
qed

lemma extract_name_Some_iff:
  "extract_name line = Some v \<longleftrightarrow>
     sublist name_marker line \<and>
     (\<exists>a b. line = a @ dquote # v @ dquote # b \<and> dquote \<notin> set a \<and> dquote \<notin> set v)"
  (is "?L \<longleftrightarrow> ?M \<and> ?R")
proof
  assume L: ?L
  then have M: ?M
    by (auto simp: extract_name_def find_str_None_iff split: if_splits)
  have "dquote \<in> set name_marker"
    by (simp add: name_marker_def dquote_def)
  with M have "dquote \<in> set line"
    by (auto simp: sublist_def)
  then obtain i where i: "find_chr dquote line = Some i"
    using find_chr_None_iff [of dquote line] by auto
  then obtain a r where line: "line = a @ dquote # r" and a: "dquote \<notin> set a" and ia: "i = length a"
    by (auto simp: find_chr_split)
  from L M i obtain e where e: "find_chr_from dquote line (i + 1) = Some e"
    and v: "v = substr line (i + 1) (e - (i + 1))"
    by (auto simp: extract_name_def find_str_None_iff Let_def split: option.splits)
  from e line ia obtain j where j: "find_chr dquote r = Some j" and ej: "e = j + (i + 1)"
    by (auto simp: find_chr_from_def)
  then obtain c b where r: "r = c @ dquote # b" and c: "dquote \<notin> set c" and jc: "j = length c"
    by (auto simp: find_chr_split)
  from v line ia ej jc r have "v = c"
    by (simp add: substr_def)
  with line r a c M show "?M \<and> ?R"
    by auto
next
  assume MR: "?M \<and> ?R"
  then obtain a b where line: "line = a @ dquote # v @ dquote # b"
    and a: "dquote \<notin> set a" and v: "dquote \<notin> set v"
    by auto
  from line a have i: "find_chr dquote line = Some (length a)"
    by (auto simp: find_chr_split)
  from v have "find_chr dquote (v @ dquote # b) = Some (length v)"
    by (auto simp: find_chr_split)
  with line have e: "find_chr_from dquote line (length a + 1) = Some (length v + (length a + 1))"
    by (simp add: find_chr_from_def)
  from MR have "find_str name_marker line \<noteq> None"
    by (simp add: find_str_None_iff)
  with i e line show ?L
    by (simp add: extract_name_def substr_def)
qed


lemma extract_name_None_iff:
  "extract_name line = None \<longleftrightarrow> \<not> sublist name_marker line \<or> count_list line dquote < 2"
proof -
  have two: "(\<exists>a v b. line = a @ dquote # v @ dquote # b \<and> dquote \<notin> set a \<and> dquote \<notin> set v)
      \<longleftrightarrow> 2 \<le> count_list line dquote"
  proof
    assume "\<exists>a v b. line = a @ dquote # v @ dquote # b \<and> dquote \<notin> set a \<and> dquote \<notin> set v"
    then show "2 \<le> count_list line dquote"
      by auto
  next
    assume c: "2 \<le> count_list line dquote"
    then have "dquote \<in> set line"
      by (metis count_list_0_iff not_numeral_le_zero)
    then obtain a r where line: "line = a @ dquote # r" and a: "dquote \<notin> set a"
      by (meson split_list_first)
    with c have "1 \<le> count_list r dquote"
      by (simp add: count_list_0_iff)
    then have "dquote \<in> set r"
      by (metis count_list_0_iff not_one_le_zero)
    then obtain v b where "r = v @ dquote # b" and "dquote \<notin> set v"
      by (meson split_list_first)
    with line a show "\<exists>a v b. line = a @ dquote # v @ dquote # b \<and> dquote \<notin> set a \<and> dquote \<notin> set v"
      by blast
  qed
  have "extract_name line \<noteq> None \<longleftrightarrow> (\<exists>v. extract_name line = Some v)"
    by auto
  also have "\<dots> \<longleftrightarrow> sublist name_marker line \<and> 2 \<le> count_list line dquote"
    unfolding extract_name_Some_iff using two by blast
  finally show ?thesis
    by auto
qed

lemma scan_lines_skip_prefix:
  "\<forall>p\<in>set pre. extract_name p = None \<Longrightarrow> scan_lines (pre @ rest) = scan_lines rest"
  by (induction pre) auto

lemma scan_lines_all_None:
  "\<forall>l\<in>set ls. extract_name l = None \<Longrightarrow> scan_lines ls = []"
  by (induction ls) auto

lemma scan_lines_cases:
  "(scan_lines ls = [] \<and> (\<forall>l\<in>set ls. extract_name l = None)) \<or>
   (\<exists>pre l post. ls = pre @ l # post \<and> (\<forall>p\<in>set pre. extract_name p = None)
      \<and> extract_name l = Some (scan_lines ls))"
proof (induction ls)
  case Nil
  then show ?case by simp
next
  case (Cons x xs)
  show ?case
  proof (cases "extract_name x")
    case None
    from Cons.IH show ?thesis
    proof
      assume "scan_lines xs = [] \<and> (\<forall>l\<in>set xs. extract_name l = None)"
      with None show ?thesis by simp
    next
      assume "\<exists>pre l post. xs = pre @ l # post \<and> (\<forall>p\<in>set pre. extract_name p = None)
        \<and> extract_name l = Some (scan_lines xs)"
      then obtain pre l post where "xs = pre @ l # post" "\<forall>p\<in>set pre. extract_name p = None"
        "extract_name l = Some (scan_lines xs)"
        by blast
      with None have "x # xs = (x # pre) @ l # post \<and> (\<forall>p\<in>set (x # pre). extract_name p = None)
        \<and> extract_name l = Some (scan_lines (x # xs))"
        by simp
      then show ?thesis by blast
    qed
  next
    case (Some v)
    then have "x # xs = [] @ x # xs \<and> (\<forall>p\<in>set []. extract_name p = None)
        \<and> extract_name x = Some (scan_lines (x # xs))"
      by simp
    then show ?thesis by blast
  qed
qed

lemma getlines_acc_line:
  "newline \<notin> set s \<Longrightarrow> getlines_acc acc (s @ newline # rest) = (acc @ s) # getlines_acc [] rest"
  by (induction s arbitrary: acc) auto

lemma extract_name_after_marker:
  assumes "dquote \<notin> set a" and "dquote \<notin> set v"
  shows "extract_name (a @ name_marker @ v @ dquote # b) = Some v"
proof -
  have nm: "name_marker = ''name = '' @ [dquote]"
    by (simp add: name_marker_def dquote_def)
  have "dquote \<notin> set ''name = ''"
    by (simp add: dquote_def)
  with assms have 1: "dquote \<notin> set (a @ ''name = '')"
    by simp
  have 2: "a @ name_marker @ v @ dquote # b = (a @ ''name = '') @ dquote # v @ dquote # b"
    by (simp add: nm)
  have 3: "sublist name_marker (a @ name_marker @ v @ dquote # b)"
    unfolding sublist_def by blast
  from 1 2 assms(2) have "\<exists>a' b'. a @ name_marker @ v @ dquote # b = a' @ dquote # v @ dquote # b'
      \<and> dquote \<notin> set a' \<and> dquote \<notin> set v"
    by blast
  with 3 show ?thesis
    unfolding extract_name_Some_iff by blast
qed

section \<open>The manifest field reader\<close>

lemma read_name_from_first_selected:
  assumes "getlines content = pre @ l # post"
    and "\<forall>p\<in>set pre. extract_name p = None"
    and "extract_name l = Some v"
  shows "read_name_from content = (if v = [] then Inl MissingField else Inr v)"
proof -
  from assms have "scan_lines (getlines content) = v"
    by (simp add: scan_lines_skip_prefix)
  then show ?thesis
    by (simp add: read_name_from_def)
qed

lemma read_name_from_none_selected:
  assumes "\<forall>l\<in>set (getlines content). extract_name l = None"
  shows "read_name_from content = Inl MissingField"
  using assms by (simp add: read_name_from_def scan_lines_all_None)

lemma read_project_name_directory:
  "fs p = Some Dir \<Longrightarrow>
   read_project_name Posix fs p = Inl MissingField \<and>
   read_project_name Windows fs p = Inl NotFound"
  by (simp add: read_project_name_def open_read_def read_name_from_def getlines_def)

lemma spec_name_after_marker_agrees:
  assumes "find_str name_marker line = Some m" and "dquote \<notin> set (take m line)"
  shows "extract_name line = spec_name_after_marker line"
proof -
  have len: "length name_marker = 7 + 1"
    by (simp add: name_marker_def)
  have nm: "name_marker = ''name = '' @ [dquote]"
    by (simp add: name_marker_def dquote_def)
  have pre: "prefix pat (drop i s)" if "find_str pat s = Some i" for pat s i
    using that
  proof (induction s arbitrary: i)
    case Nil
    then show ?case by (simp split: if_splits)
  next
    case (Cons x xs)
    then show ?case by (cases i) (auto split: if_splits)
  qed
  have le: "i \<le> length s" if "find_str pat s = Some i" for pat s i
    using that
  proof (induction s arbitrary: i)
    case Nil
    then show ?case by (simp split: if_splits)
  next
    case (Cons x xs)
    then show ?case by (cases i) (auto split: if_splits)
  qed
  from pre [OF assms(1)] obtain r where r: "drop m line = name_marker @ r"
    by (auto simp: prefix_def)
  have "line = take m line @ drop m line"
    by simp
  also have "\<dots> = take m line @ name_marker @ r"
    by (simp only: r)
  also have "\<dots> = take m line @ ''name = '' @ dquote # r"
    by (simp only: nm append_assoc append_Cons append_Nil)
  finally have line: "line = take m line @ ''name = '' @ dquote # r" .
  have lm: "length (take m line) = m"
    using le [OF assms(1)] by simp
  have nq: "dquote \<notin> set (take m line @ ''name = '')"
    using assms(2) by (simp add: dquote_def)
  have "\<exists>a b. line = a @ dquote # b \<and> dquote \<notin> set a \<and> m + 7 = length a"
  proof (intro exI conjI)
    show "line = (take m line @ ''name = '') @ dquote # r"
      using line by simp
    show "dquote \<notin> set (take m line @ ''name = '')"
      by (rule nq)
    show "m + 7 = length (take m line @ ''name = '')"
      using lm by simp
  qed
  then have first: "find_chr dquote line = Some (m + 7)"
    by (simp only: find_chr_split)
  have "drop (m + length name_marker) line = drop (length name_marker) (drop m line)"
    by (simp add: add.commute)
  then have rest: "drop (m + length name_marker) line = r"
    by (simp add: r)
  have rest8: "drop (m + 7 + 1) line = r"
    using rest unfolding len by (simp only: add.assoc)
  have "find_chr_from dquote line (m + 7 + 1) = map_option (\<lambda>i. i + (m + 7 + 1)) (find_chr dquote r)"
    by (simp only: find_chr_from_def rest8)
  moreover have "substr line (m + 7 + 1) n = take n r" for n
    by (simp only: substr_def rest8)
  ultimately show ?thesis
    using assms(1) first rest
    by (auto simp: extract_name_def spec_name_after_marker_def Let_def split: option.splits)
qed

text \<open>
  Claim C2 says that the name returned from a selected line is the text between the
  first and the second double quote following the marker. The code looks for the
  first double quote of the whole line (\<^verbatim>\<open>line.find('"')\<close> without the position of
  the marker), so on a manifest line where a quoted value precedes the marker it
  returns that earlier value. On the line below, a valid inline table, the code
  returns the version string while the rule of the claim gives the project name.
  Lemma \<open>spec_name_after_marker_agrees\<close> shows that the two coincide whenever no
  double quote precedes the marker.
\<close>

theorem extract_name_ignores_marker_position:
  \<open>extract_name ''project = { version = "0.1.0", name = "demo" }'' = Some ''0.1.0'' \<and>
   spec_name_after_marker ''project = { version = "0.1.0", name = "demo" }'' = Some ''demo'' \<and>
   read_name_from ''project = { version = "0.1.0", name = "demo" }\<newline>'' = Inr ''0.1.0''\<close>
  by code_simp

lemma sail_toml_roundtrip:
  assumes "X \<noteq> []" and "dquote \<notin> set X" and "newline \<notin> set X"
  shows "read_name_from (sail_toml_content X) = Inr X"
proof -
  have nl: "newline \<notin> set (name_marker @ X @ [dquote])"
    using assms(3) by (simp add: name_marker_def newline_def dquote_def)
  have c: \<open>sail_toml_content X =
      ''[project]'' @ newline # (name_marker @ X @ [dquote]) @ newline #
        ''version = "0.1.0"\<newline>\<newline>[dependencies]\<newline>''\<close>
    by (simp add: sail_toml_content_def name_marker_def newline_def dquote_def)
  have p: "newline \<notin> set ''[project]''"
    by (simp add: newline_def)
  have \<open>getlines (sail_toml_content X) =
      ([] @ ''[project]'') # getlines_acc [] ((name_marker @ X @ [dquote]) @ newline #
        ''version = "0.1.0"\<newline>\<newline>[dependencies]\<newline>'')\<close>
    unfolding c getlines_def by (rule getlines_acc_line [OF p])
  also have \<open>\<dots> = ([] @ ''[project]'') # ([] @ name_marker @ X @ [dquote]) #
      getlines_acc [] ''version = "0.1.0"\<newline>\<newline>[dependencies]\<newline>''\<close>
    by (simp only: getlines_acc_line [OF nl])
  finally have \<open>getlines (sail_toml_content X) =
      [''[project]''] @ (name_marker @ X @ [dquote]) #
        getlines ''version = "0.1.0"\<newline>\<newline>[dependencies]\<newline>''\<close>
    by (simp add: getlines_def)
  moreover have "\<forall>l\<in>set [''[project]'']. extract_name l = None"
    by code_simp
  moreover have "extract_name ([] @ name_marker @ X @ dquote # []) = Some X"
    using assms(2) by (intro extract_name_after_marker) simp_all
  then have "extract_name (name_marker @ X @ [dquote]) = Some X"
    by simp
  ultimately show ?thesis
    using read_name_from_first_selected assms(1) by fastforce
qed

text \<open>
  Claim C3, amended: for every non-empty string \<open>X\<close> without a double quote, a
  manifest in which the line \<^verbatim>\<open>name = "X"\<close> occurs, and in which no earlier line is
  selected by the scan, reads back as \<open>X\<close>; in particular the manifest text that
  \<^verbatim>\<open>new\<close> and \<^verbatim>\<open>init\<close> write for a non-empty name without double quote and
  line break reads back as that name.
\<close>

theorem read_project_name_roundtrip:
  "(getlines content = pre @ (name_marker @ X @ [dquote]) # post \<and>
    (\<forall>l\<in>set pre. extract_name l = None) \<and> X \<noteq> [] \<and> dquote \<notin> set X
      \<longrightarrow> read_name_from content = Inr X) \<and>
   (X \<noteq> [] \<and> dquote \<notin> set X \<and> newline \<notin> set X
      \<longrightarrow> read_name_from (sail_toml_content X) = Inr X)"
proof (intro conjI impI)
  assume a: "getlines content = pre @ (name_marker @ X @ [dquote]) # post \<and>
    (\<forall>l\<in>set pre. extract_name l = None) \<and> X \<noteq> [] \<and> dquote \<notin> set X"
  then have "extract_name ([] @ name_marker @ X @ dquote # []) = Some X"
    by (intro extract_name_after_marker) simp_all
  then have "extract_name (name_marker @ X @ [dquote]) = Some X"
    by simp
  with a read_name_from_first_selected [of content pre "name_marker @ X @ [dquote]" post X]
  show "read_name_from content = Inr X"
    by simp
next
  assume "X \<noteq> [] \<and> dquote \<notin> set X \<and> newline \<notin> set X"
  then show "read_name_from (sail_toml_content X) = Inr X"
    by (simp add: sail_toml_roundtrip)
qed

text \<open>A manifest with a comment line before the name, and a written manifest.\<close>

theorem read_project_name_roundtrip_witness:
  \<open>read_name_from ''# my project\<newline>name = "demo"\<newline>'' = Inr ''demo'' \<and>
   read_name_from (sail_toml_content ''my app'') = Inr ''my app''\<close>
proof -
  have 1: \<open>getlines ''# my project\<newline>name = "demo"\<newline>'' =
      [''# my project''] @ (name_marker @ ''demo'' @ [dquote]) # []\<close>
    by code_simp
  have 2: "\<forall>l\<in>set [''# my project'']. extract_name l = None"
    by code_simp
  have 3: "dquote \<notin> set ''demo''" "dquote \<notin> set ''my app''" "newline \<notin> set ''my app''"
    by code_simp+
  from read_project_name_roundtrip [of \<open>''# my project\<newline>name = "demo"\<newline>''\<close>
      "[''# my project'']" "''demo''" "[]"] 1 2 3
  have \<open>read_name_from ''# my project\<newline>name = "demo"\<newline>'' = Inr ''demo''\<close>
    by simp
  moreover from read_project_name_roundtrip [of _ _ "''my app''"] 3
  have "read_name_from (sail_toml_content ''my app'') = Inr ''my app''"
    by simp
  ultimately show ?thesis ..
qed

text \<open>
  Claim C3 as stated fails for the empty name, which the test
  \<^verbatim>\<open>project_name.empty()\<close> rejects, and for a manifest where an earlier line also
  carries the marker.
\<close>

theorem read_project_name_roundtrip_counterexample:
  \<open>dquote \<notin> set [] \<and>
   name_marker @ [] @ [dquote] \<in> set (getlines (sail_toml_content [])) \<and>
   read_name_from (sail_toml_content []) = Inl MissingField \<and>
   dquote \<notin> set ''demo'' \<and>
   name_marker @ ''demo'' @ [dquote] \<in> set (getlines ''pkgname = "other"\<newline>name = "demo"\<newline>'') \<and>
   read_name_from ''pkgname = "other"\<newline>name = "demo"\<newline>'' = Inr ''other''\<close>
  by code_simp

lemma scan_lines_remove_unselected:
  "extract_name l = None \<Longrightarrow> scan_lines (pre @ l # post) = scan_lines (pre @ post)"
  by (induction pre) (auto split: option.splits)

lemma read_name_from_MissingField_iff:
  "read_name_from content = Inl MissingField \<longleftrightarrow>
     (\<forall>l\<in>set (getlines content). extract_name l = None) \<or>
     (\<exists>pre l post. getlines content = pre @ l # post \<and>
        (\<forall>p\<in>set pre. extract_name p = None) \<and> extract_name l = Some [])"
  (is "?L \<longleftrightarrow> ?A \<or> ?B")
proof
  assume ?L
  then have empty: "scan_lines (getlines content) = []"
    by (simp add: read_name_from_def Let_def split: if_splits)
  from scan_lines_cases [of "getlines content"] show "?A \<or> ?B"
  proof
    assume "scan_lines (getlines content) = [] \<and> (\<forall>l\<in>set (getlines content). extract_name l = None)"
    then show ?thesis by simp
  next
    assume "\<exists>pre l post. getlines content = pre @ l # post \<and>
      (\<forall>p\<in>set pre. extract_name p = None) \<and>
      extract_name l = Some (scan_lines (getlines content))"
    with empty have ?B by simp
    then show ?thesis ..
  qed
next
  assume "?A \<or> ?B"
  then show ?L
  proof
    assume ?A
    then show ?L by (rule read_name_from_none_selected)
  next
    assume ?B
    then obtain pre l post where "getlines content = pre @ l # post"
      "\<forall>p\<in>set pre. extract_name p = None" "extract_name l = Some []"
      by blast
    from read_name_from_first_selected [OF this] show ?L by simp
  qed
qed

text \<open>
  Claim C4, amended: the lines are scanned in file order and the first line that the
  loop body selects wins, whatever its section and whatever follows it; the reader
  fails with \<open>MissingField\<close> exactly when no line is selected or the value taken from
  the selected line is empty. A line without the marker \<^verbatim>\<open>name = "\<close>, or with fewer
  than two double quotes, is never selected; a line whose first double quote is the
  marker's and whose value is closed by a double quote is selected with that value.
\<close>

theorem read_name_scan_order:
  "(getlines content = pre @ l # post \<and> (\<forall>p\<in>set pre. extract_name p = None) \<and>
      extract_name l = Some v
    \<longrightarrow> read_name_from content = (if v = [] then Inl MissingField else Inr v)) \<and>
   (read_name_from content = Inl MissingField \<longleftrightarrow>
      (\<forall>j\<in>set (getlines content). extract_name j = None) \<or>
      (\<exists>pre' j post'. getlines content = pre' @ j # post' \<and>
         (\<forall>p\<in>set pre'. extract_name p = None) \<and> extract_name j = Some [])) \<and>
   (\<not> sublist name_marker k \<or> count_list k dquote < 2 \<longrightarrow> extract_name k = None) \<and>
   (dquote \<notin> set a \<and> dquote \<notin> set u \<longrightarrow>
      extract_name (a @ name_marker @ u @ dquote # b) = Some u)"
proof (intro conjI impI)
  assume "getlines content = pre @ l # post \<and> (\<forall>p\<in>set pre. extract_name p = None) \<and>
      extract_name l = Some v"
  then show "read_name_from content = (if v = [] then Inl MissingField else Inr v)"
    using read_name_from_first_selected by blast
next
  show "read_name_from content = Inl MissingField \<longleftrightarrow>
      (\<forall>j\<in>set (getlines content). extract_name j = None) \<or>
      (\<exists>pre' j post'. getlines content = pre' @ j # post' \<and>
         (\<forall>p\<in>set pre'. extract_name p = None) \<and> extract_name j = Some [])"
    by (rule read_name_from_MissingField_iff)
next
  assume "\<not> sublist name_marker k \<or> count_list k dquote < 2"
  then show "extract_name k = None"
    by (simp add: extract_name_None_iff)
next
  assume "dquote \<notin> set a \<and> dquote \<notin> set u"
  then show "extract_name (a @ name_marker @ u @ dquote # b) = Some u"
    by (simp add: extract_name_after_marker)
qed

text \<open>
  A later \<^verbatim>\<open>name\<close> line under another section is not considered, and a manifest
  without the marker is rejected.
\<close>

theorem read_name_scan_order_witness:
  \<open>read_name_from ''[project]\<newline>name = "demo"\<newline>[dependencies]\<newline>name = "later"\<newline>'' = Inr ''demo'' \<and>
   read_name_from ''[project]\<newline>version = "0.1.0"\<newline>'' = Inl MissingField \<and>
   extract_name ''version = "0.1.0"'' = None \<and>
   extract_name ''  name = "demo" # app'' = Some ''demo''\<close>
proof -
  have 1: \<open>getlines ''[project]\<newline>name = "demo"\<newline>[dependencies]\<newline>name = "later"\<newline>'' =
      [''[project]''] @ ''name = "demo"'' # [''[dependencies]'', ''name = "later"'']\<close>
    by code_simp
  have 2: "\<forall>p\<in>set [''[project]'']. extract_name p = None"
    by code_simp
  have 3: \<open>extract_name ''name = "demo"'' = Some ''demo''\<close>
    by code_simp
  have 4: \<open>\<forall>k\<in>set (getlines ''[project]\<newline>version = "0.1.0"\<newline>''). extract_name k = None\<close>
    by code_simp
  have 5: \<open>\<not> sublist name_marker ''version = "0.1.0"''\<close>
    unfolding find_str_None_iff [symmetric] by code_simp
  have 6: \<open>dquote \<notin> set ''  '' \<and> dquote \<notin> set ''demo''\<close>
    by code_simp
  have 7: \<open>''  '' @ name_marker @ ''demo'' @ dquote # '' # app'' = ''  name = "demo" # app''\<close>
    by code_simp
  from read_name_scan_order [of _ "[''[project]'']" _ _ "''demo''"] 1 2 3
  have a: \<open>read_name_from ''[project]\<newline>name = "demo"\<newline>[dependencies]\<newline>name = "later"\<newline>'' = Inr ''demo''\<close>
    by simp
  from read_name_scan_order [of \<open>''[project]\<newline>version = "0.1.0"\<newline>''\<close>] 4
  have b: \<open>read_name_from ''[project]\<newline>version = "0.1.0"\<newline>'' = Inl MissingField\<close>
    by blast
  from read_name_scan_order [where k = \<open>''version = "0.1.0"''\<close>] 5
  have c: \<open>extract_name ''version = "0.1.0"'' = None\<close>
    by blast
  from read_name_scan_order [where a = "''  ''" and u = "''demo''" and b = "'' # app''"] 6
  have \<open>extract_name (''  '' @ name_marker @ ''demo'' @ dquote # '' # app'') = Some ''demo''\<close>
    by blast
  then have d: \<open>extract_name ''  name = "demo" # app'' = Some ''demo''\<close>
    unfolding 7 .
  from a b c d show ?thesis
    by (intro conjI)
qed

text \<open>
  Claim C4 as stated fails: a line with the marker and an empty value gives
  \<open>MissingField\<close>, and a first marker line without closing quote does not win.
\<close>

theorem read_name_scan_order_counterexample:
  \<open>find_str name_marker ''name = ""'' \<noteq> None \<and>
   getlines ''[project]\<newline>name = ""\<newline>'' = [''[project]'', ''name = ""''] \<and>
   read_name_from ''[project]\<newline>name = ""\<newline>'' = Inl MissingField \<and>
   find_str name_marker ''name = "abc'' \<noteq> None \<and>
   getlines ''name = "abc\<newline>name = "demo"\<newline>'' = [''name = "abc'', ''name = "demo"''] \<and>
   read_name_from ''name = "abc\<newline>name = "demo"\<newline>'' = Inr ''demo''\<close>
  by code_simp

text \<open>
  Claim C10: a line that contains the marker and has no second double quote is not
  selected and raises no error; the reader returns what it returns on the manifest
  without that line; and when no line before it is selected and a well-formed name
  line follows, with no selected line in between, the reader returns the name of
  that later line.
\<close>

theorem unterminated_marker_line_skipped:
  assumes "find_str name_marker l \<noteq> None"
    and "count_list l dquote = 1"
    and "getlines content = pre @ l # post"
    and "getlines content' = pre @ post"
  shows "extract_name l = None \<and>
    read_name_from content = read_name_from content' \<and>
    ((\<forall>p\<in>set pre. extract_name p = None) \<and>
     post = mid @ (a @ name_marker @ v @ dquote # b) # rest \<and>
     (\<forall>p\<in>set mid. extract_name p = None) \<and>
     dquote \<notin> set a \<and> dquote \<notin> set v \<and> v \<noteq> []
       \<longrightarrow> read_name_from content = Inr v)"
proof (intro conjI impI)
  from assms(2) show none: "extract_name l = None"
    by (simp add: extract_name_None_iff)
  then have "scan_lines (pre @ l # post) = scan_lines (pre @ post)"
    by (rule scan_lines_remove_unselected)
  with assms(3,4) show "read_name_from content = read_name_from content'"
    by (simp add: read_name_from_def)
  assume h: "(\<forall>p\<in>set pre. extract_name p = None) \<and>
     post = mid @ (a @ name_marker @ v @ dquote # b) # rest \<and>
     (\<forall>p\<in>set mid. extract_name p = None) \<and>
     dquote \<notin> set a \<and> dquote \<notin> set v \<and> v \<noteq> []"
  then have k: "extract_name (a @ name_marker @ v @ dquote # b) = Some v"
    by (simp add: extract_name_after_marker)
  from h none have before: "\<forall>p\<in>set (pre @ l # mid). extract_name p = None"
    by auto
  from h assms(3) have "getlines content = (pre @ l # mid) @ (a @ name_marker @ v @ dquote # b) # rest"
    by simp
  from read_name_from_first_selected [OF this before k] h
  show "read_name_from content = Inr v"
    by simp
qed

text \<open>An unterminated name line followed, two lines later, by a well-formed one.\<close>

theorem unterminated_marker_line_skipped_witness:
  \<open>extract_name ''name = "abc'' = None \<and>
   read_name_from ''[project]\<newline>name = "abc\<newline>version = "0.1.0"\<newline>name = "demo"\<newline>'' = Inr ''demo''\<close>
proof -
  have 1: \<open>find_str name_marker ''name = "abc'' \<noteq> None\<close>
    by code_simp
  have 2: \<open>count_list ''name = "abc'' dquote = 1\<close>
    by code_simp
  have 3: \<open>getlines ''[project]\<newline>name = "abc\<newline>version = "0.1.0"\<newline>name = "demo"\<newline>'' =
      [''[project]''] @ ''name = "abc'' # [''version = "0.1.0"'', ''name = "demo"'']\<close>
    by code_simp
  have 4: \<open>getlines ''[project]\<newline>version = "0.1.0"\<newline>name = "demo"\<newline>'' =
      [''[project]''] @ [''version = "0.1.0"'', ''name = "demo"'']\<close>
    by code_simp
  have 5: \<open>(\<forall>p\<in>set [''[project]'']. extract_name p = None) \<and>
     [''version = "0.1.0"'', ''name = "demo"''] =
       [''version = "0.1.0"''] @ ([] @ name_marker @ ''demo'' @ dquote # []) # [] \<and>
     (\<forall>p\<in>set [''version = "0.1.0"'']. extract_name p = None) \<and>
     dquote \<notin> set [] \<and> dquote \<notin> set ''demo'' \<and> ''demo'' \<noteq> []\<close>
    by code_simp
  from unterminated_marker_line_skipped [OF 1 2 3 4,
      of \<open>[''version = "0.1.0"'']\<close> "[]" "''demo''" "[]" "[]"] 5
  show ?thesis
    by blast
qed

section \<open>The path quoter\<close>

lemma find_chr_from_None_iff:
  "find_chr_from c s pos = None \<longleftrightarrow> c \<notin> set (drop pos s)"
  by (simp add: find_chr_from_def find_chr_None_iff)

lemma find_chr_from_Some_split:
  assumes "find_chr_from c s pos = Some p" and "pos \<le> length s"
  shows "\<exists>a b. s = take pos s @ a @ c # b \<and> c \<notin> set a \<and> p = pos + length a"
proof -
  from assms(1) obtain i where i: "find_chr c (drop pos s) = Some i" and p: "p = i + pos"
    by (auto simp: find_chr_from_def)
  from i obtain a b where d: "drop pos s = a @ c # b" and a: "c \<notin> set a" and ia: "i = length a"
    by (auto simp: find_chr_split)
  have "s = take pos s @ drop pos s"
    by simp
  with d have "s = take pos s @ a @ c # b"
    by simp
  with a p ia show ?thesis
    by auto
qed

lemma escape_no_space:
  "space \<notin> set a \<Longrightarrow> concat (map (\<lambda>c. if c = space then [backslash, space] else [c]) a) = a"
  by (induction a) auto

lemma quote_loop_escapes:
  "pos \<le> length result \<Longrightarrow>
   quote_loop result pos =
     take pos result @
     concat (map (\<lambda>c. if c = space then [backslash, space] else [c]) (drop pos result))"
proof (induction result pos rule: quote_loop.induct)
  case (1 result pos)
  show ?case
  proof (cases "find_chr_from space result pos")
    case None
    then have "space \<notin> set (drop pos result)"
      by (simp add: find_chr_from_None_iff)
    then have "concat (map (\<lambda>c. if c = space then [backslash, space] else [c]) (drop pos result))
        = drop pos result"
      by (rule escape_no_space)
    with None show ?thesis
      by simp
  next
    case (Some p)
    from find_chr_from_Some_split [OF Some "1.prems"]
    obtain a b where r: "result = take pos result @ a @ space # b"
      and a: "space \<notin> set a" and p: "p = pos + length a"
      by blast
    define u where "u = take pos result"
    have lu: "length u = pos"
      using "1.prems" by (simp add: u_def)
    have res: "result = u @ a @ space # b"
      using r by (simp add: u_def)
    have tp: "take p (u @ a @ space # b) = u @ a"
      using p lu by simp
    have dp: "drop p (u @ a @ space # b) = space # b"
      using p lu by simp
    have "insert_at (u @ a @ space # b) p [backslash] = (u @ a) @ backslash # space # b"
      unfolding insert_at_def tp dp by simp
    with res have ins: "insert_at result p [backslash] = (u @ a) @ backslash # space # b"
      by simp
    have le: "p + 2 \<le> length (insert_at result p [backslash])"
      unfolding ins using p lu by simp
    have tk: "take (p + 2) (insert_at result p [backslash]) = u @ a @ [backslash, space]"
      unfolding ins using p lu by simp
    have dr: "drop (p + 2) (insert_at result p [backslash]) = b"
      unfolding ins using p lu by simp
    have "quote_loop result pos = quote_loop (insert_at result p [backslash]) (p + 2)"
      using Some by simp
    also have "\<dots> = (u @ a @ [backslash, space]) @
        concat (map (\<lambda>c. if c = space then [backslash, space] else [c]) b)"
      using "1.IH" [OF Some le] by (simp only: tk dr)
    also have "\<dots> = u @
        concat (map (\<lambda>c. if c = space then [backslash, space] else [c]) (a @ space # b))"
      using a by (simp add: escape_no_space)
    also have "a @ space # b = drop pos (u @ a @ space # b)"
      using lu by simp
    also have "u @ a @ space # b = result"
      using res by simp
    finally show ?thesis
      by (simp add: u_def)
  qed
qed

text \<open>
  Claim C9: on a non-Windows platform \<open>quote_path\<close> puts one backslash before every
  space and leaves every other character as it is, so it is the identity on a path
  without a space; on Windows it wraps the path in one pair of double quotes.
\<close>

theorem quote_path_escapes_spaces_only:
  "quote_path Posix path =
     concat (map (\<lambda>c. if c = space then [backslash, space] else [c]) path) \<and>
   (space \<notin> set path \<longrightarrow> quote_path Posix path = path) \<and>
   quote_path Windows path = [dquote] @ path @ [dquote]"
proof -
  have "quote_path Posix path =
      concat (map (\<lambda>c. if c = space then [backslash, space] else [c]) path)"
    using quote_loop_escapes [of 0 path] by (simp add: quote_path_def)
  moreover have "space \<notin> set path \<longrightarrow> quote_path Posix path = path"
    using calculation by (simp add: escape_no_space)
  moreover have "quote_path Windows path = [dquote] @ path @ [dquote]"
    by (simp add: quote_path_def)
  ultimately show ?thesis
    by blast
qed

text \<open>A path with a space, a path with other shell characters, and the Windows form.\<close>

theorem quote_path_escapes_spaces_only_witness:
  \<open>quote_path Posix ''/home/me/my project'' = ''/home/me/my'' @ [backslash] @ '' project'' \<and>
   quote_path Posix ''/opt/$x;"y"'' = ''/opt/$x;"y"'' \<and>
   quote_path Windows ''C:/my project'' = [dquote] @ ''C:/my project'' @ [dquote]\<close>
proof -
  have 1: \<open>space \<notin> set ''/opt/$x;"y"''\<close>
    by code_simp
  have 2: \<open>concat (map (\<lambda>c. if c = space then [backslash, space] else [c]) ''/home/me/my project'')
      = ''/home/me/my'' @ [backslash] @ '' project''\<close>
    by code_simp
  have a: \<open>quote_path Posix ''/home/me/my project'' = ''/home/me/my'' @ [backslash] @ '' project''\<close>
    using quote_path_escapes_spaces_only [of \<open>''/home/me/my project''\<close>, THEN conjunct1] 2
    by (rule trans)
  have b: \<open>quote_path Posix ''/opt/$x;"y"'' = ''/opt/$x;"y"''\<close>
    using quote_path_escapes_spaces_only [of \<open>''/opt/$x;"y"''\<close>] 1
    by blast
  have c: \<open>quote_path Windows ''C:/my project'' = [dquote] @ ''C:/my project'' @ [dquote]\<close>
    using quote_path_escapes_spaces_only [of \<open>''C:/my project''\<close>]
    by blast
  from a b c show ?thesis
    by (intro conjI)
qed

section \<open>The project locator\<close>

lemma locate_root_root: "locate_root ex [] = None"
  by simp

lemma locate_root_snoc:
  "locate_root ex (xs @ [x]) =
     (if ex (path_append (xs @ [x]) ''Sail.toml'') then Some (xs @ [x]) else locate_root ex xs)"
  by (subst locate_root.simps) (simp add: parent_path_def)

lemma locate_root_None_iff:
  "locate_root ex p = None \<longleftrightarrow>
     (\<forall>q. prefix q p \<and> q \<noteq> [] \<longrightarrow> \<not> ex (path_append q ''Sail.toml''))"
proof (induction p rule: rev_induct)
  case Nil
  then show ?case by simp
next
  case (snoc x xs)
  show ?case
    unfolding locate_root_snoc prefix_snoc using snoc.IH by auto
qed

lemma locate_root_Some_iff:
  "locate_root ex p = Some r \<longleftrightarrow>
     r \<noteq> [] \<and> prefix r p \<and> ex (path_append r ''Sail.toml'') \<and>
     (\<forall>q. prefix q p \<and> strict_prefix r q \<longrightarrow> \<not> ex (path_append q ''Sail.toml''))"
proof (induction p rule: rev_induct)
  case Nil
  then show ?case by auto
next
  case (snoc x xs)
  show ?case
  proof (cases "ex (path_append (xs @ [x]) ''Sail.toml'')")
    case True
    have eq: "r = xs @ [x]" if "prefix r (xs @ [x])"
      "\<forall>q. prefix q (xs @ [x]) \<and> strict_prefix r q \<longrightarrow> \<not> ex (path_append q ''Sail.toml'')"
      using that True by (auto simp: strict_prefix_def)
    have top: "\<not> (prefix q (xs @ [x]) \<and> strict_prefix (xs @ [x]) q)" for q
      by (auto simp: strict_prefix_def dest: prefix_order.antisym)
    show ?thesis
    proof
      assume "locate_root ex (xs @ [x]) = Some r"
      with True have "r = xs @ [x]"
        by (simp add: locate_root_snoc)
      with True top show "r \<noteq> [] \<and> prefix r (xs @ [x]) \<and> ex (path_append r ''Sail.toml'') \<and>
          (\<forall>q. prefix q (xs @ [x]) \<and> strict_prefix r q \<longrightarrow> \<not> ex (path_append q ''Sail.toml''))"
        by blast
    next
      assume "r \<noteq> [] \<and> prefix r (xs @ [x]) \<and> ex (path_append r ''Sail.toml'') \<and>
          (\<forall>q. prefix q (xs @ [x]) \<and> strict_prefix r q \<longrightarrow> \<not> ex (path_append q ''Sail.toml''))"
      then have "r = xs @ [x]"
        using eq by blast
      with True show "locate_root ex (xs @ [x]) = Some r"
        by (simp add: locate_root_snoc)
    qed
  next
    case False
    have "prefix r xs" if "prefix r (xs @ [x])" "ex (path_append r ''Sail.toml'')"
      using that False by (auto simp: prefix_snoc)
    moreover have "prefix r (xs @ [x])" if "prefix r xs"
      using that by (simp add: prefix_snoc)
    ultimately show ?thesis
      unfolding locate_root_snoc using False snoc.IH
      by (auto simp: prefix_snoc strict_prefix_def)
  qed
qed

text \<open>
  Claim C1 says that the walk covers the whole ancestor chain, the root directory of
  the file system included. The loop stops as soon as the current path is the root
  path, before looking for a manifest there (lemma \<open>locate_root_None_iff\<close>: only the
  ancestors other than the root are inspected; lemma \<open>locate_root_Some_iff\<close>: among
  those the closest one wins). With a manifest in the root directory the locator
  reports that none was found, from a subdirectory and from the root itself, and
  \<^verbatim>\<open>build_project\<close> prints that no manifest exists in the current directory or any
  parent directory.
\<close>

theorem locate_root_never_checks_filesystem_root:
  "path_exists root_manifest_world (path_append [] ''Sail.toml'') \<and>
   locate_root (path_exists root_manifest_world) (cwd root_manifest_world) = None \<and>
   locate_root (path_exists root_manifest_world) [] = None \<and>
   fst (build_project (scripted_host 0 0) False root_manifest_world) = (EXIT_FAILURE, None) \<and>
   printed (snd (build_project (scripted_host 0 0) False root_manifest_world))
     = [Err_manifest_not_found]"
  by code_simp

section \<open>The artifact path resolver\<close>







lemma path_join_rooted:
  assumes "\<not> has_drive pf s" and "s \<noteq> []" and "is_separator pf (hd s)"
  shows "path_join pf p s = relative_names pf s"
  using assms by (simp add: path_join_def)







section \<open>The build description generator\<close>

lemma ensure_build_description_present:
  "path_exists w (path_append project_root ''CMakeLists.txt'') \<Longrightarrow>
   ensure_build_description project_root project_name w = (True, w)"
  by (simp add: ensure_build_description_def)

lemma ensure_build_description_absent:
  "\<not> path_exists w (path_append project_root ''CMakeLists.txt'') \<Longrightarrow>
   ensure_build_description project_root project_name w =
     (if writable w (path_append project_root ''CMakeLists.txt'')
      then (True, w\<lparr>files := (files w)(path_append project_root ''CMakeLists.txt'' \<mapsto>
              File (cmake_content project_name))\<rparr>)
      else (False, print Err_create_cmake w))"
  by (simp add: ensure_build_description_def)

lemma ensure_build_description_exists_after:
  "ensure_build_description project_root project_name w = (True, w1) \<Longrightarrow>
   path_exists w1 (path_append project_root ''CMakeLists.txt'')"
  by (auto simp: ensure_build_description_def Let_def path_exists_def split: if_splits)

text \<open>
  Claim C5: when something named \<^verbatim>\<open>CMakeLists.txt\<close> exists in the project root the
  generator succeeds and leaves the world as it is; the file is written only when it
  is absent; and after a successful call a second call changes nothing, whether or
  not the file was edited in between.
\<close>

theorem ensure_build_description_idempotent:
  "(path_exists w (path_append project_root ''CMakeLists.txt'') \<longrightarrow>
      ensure_build_description project_root project_name w = (True, w)) \<and>
   (\<not> path_exists w (path_append project_root ''CMakeLists.txt'') \<longrightarrow>
      ensure_build_description project_root project_name w =
        (if writable w (path_append project_root ''CMakeLists.txt'')
         then (True, w\<lparr>files := (files w)(path_append project_root ''CMakeLists.txt'' \<mapsto>
                 File (cmake_content project_name))\<rparr>)
         else (False, print Err_create_cmake w))) \<and>
   (ensure_build_description project_root project_name w = (True, w1) \<longrightarrow>
      ensure_build_description project_root other_name w1 = (True, w1) \<and>
      ensure_build_description project_root other_name
          (w1\<lparr>files := (files w1)(path_append project_root ''CMakeLists.txt'' \<mapsto> File edited)\<rparr>)
        = (True, w1\<lparr>files := (files w1)(path_append project_root ''CMakeLists.txt'' \<mapsto>
             File edited)\<rparr>))"
proof (intro conjI impI)
  assume "path_exists w (path_append project_root ''CMakeLists.txt'')"
  then show "ensure_build_description project_root project_name w = (True, w)"
    by (rule ensure_build_description_present)
next
  assume "\<not> path_exists w (path_append project_root ''CMakeLists.txt'')"
  then show "ensure_build_description project_root project_name w =
        (if writable w (path_append project_root ''CMakeLists.txt'')
         then (True, w\<lparr>files := (files w)(path_append project_root ''CMakeLists.txt'' \<mapsto>
                 File (cmake_content project_name))\<rparr>)
         else (False, print Err_create_cmake w))"
    by (rule ensure_build_description_absent)
next
  assume "ensure_build_description project_root project_name w = (True, w1)"
  then have "path_exists w1 (path_append project_root ''CMakeLists.txt'')"
    by (rule ensure_build_description_exists_after)
  then show "ensure_build_description project_root other_name w1 = (True, w1)"
    by (rule ensure_build_description_present)
next
  have "path_exists (w1\<lparr>files := (files w1)(path_append project_root ''CMakeLists.txt'' \<mapsto> File edited)\<rparr>)
      (path_append project_root ''CMakeLists.txt'')"
    by (simp add: path_exists_def)
  then show "ensure_build_description project_root other_name
          (w1\<lparr>files := (files w1)(path_append project_root ''CMakeLists.txt'' \<mapsto> File edited)\<rparr>)
        = (True, w1\<lparr>files := (files w1)(path_append project_root ''CMakeLists.txt'' \<mapsto>
             File edited)\<rparr>)"
    by (rule ensure_build_description_present)
qed

text \<open>Generation in the demo project, a second call, and a call after an edit.\<close>

theorem ensure_build_description_idempotent_witness:
  "ensure_build_description [''work'', ''demo''] ''demo'' demo_world = (True, generated_world) \<and>
   ensure_build_description [''work'', ''demo''] ''demo'' generated_world = (True, generated_world) \<and>
   ensure_build_description [''work'', ''demo''] ''demo'' edited_world = (True, edited_world) \<and>
   files edited_world [''work'', ''demo'', ''CMakeLists.txt''] = Some (File ''# edited by hand'')"
proof -
  have absent: "\<not> path_exists demo_world (path_append [''work'', ''demo''] ''CMakeLists.txt'')"
    by (simp add: path_exists_def demo_world_def demo_files_def path_append_def)
  have present: "path_exists generated_world (path_append [''work'', ''demo''] ''CMakeLists.txt'')"
    by (simp add: path_exists_def generated_world_def)
  have w: "writable demo_world (path_append [''work'', ''demo''] ''CMakeLists.txt'')"
    by (simp add: demo_world_def)
  have first: "ensure_build_description [''work'', ''demo''] ''demo'' demo_world = (True, generated_world)"
    using ensure_build_description_idempotent
      [of demo_world "[''work'', ''demo'']" "''demo''", THEN conjunct2, THEN conjunct1] absent w
    by (simp add: generated_world_def)
  have second: "ensure_build_description [''work'', ''demo''] ''demo'' generated_world
      = (True, generated_world)"
    using ensure_build_description_idempotent
      [of generated_world "[''work'', ''demo'']" "''demo''", THEN conjunct1] present
    by blast
  from ensure_build_description_idempotent
      [of demo_world "[''work'', ''demo'']" "''demo''" generated_world "''demo''" "''# edited by hand''",
        THEN conjunct2, THEN conjunct2] first
  have third: "ensure_build_description [''work'', ''demo''] ''demo'' edited_world = (True, edited_world)"
    by (simp add: edited_world_def)
  have "files edited_world [''work'', ''demo'', ''CMakeLists.txt''] = Some (File ''# edited by hand'')"
    by (simp add: edited_world_def path_append_def)
  with first second third show ?thesis
    by (intro conjI)
qed

section \<open>The toolchain invoker and the orchestrator\<close>

lemma issued_print [simp]: "issued (print m w) = issued w"
  by (simp add: print_def)

lemma make_dirs_issued: "make_dirs w ds = (ok, w') \<Longrightarrow> issued w' = issued w"
proof (induction ds arbitrary: w)
  case Nil
  then show ?case by simp
next
  case (Cons d ds)
  show ?case
  proof (cases "files w d")
    case None
    with Cons.prems Cons.IH [of "w\<lparr>files := (files w)(d \<mapsto> Dir)\<rparr>"] show ?thesis
      by (auto split: if_splits)
  next
    case (Some n)
    with Cons.prems Cons.IH [of w] show ?thesis
      by (cases n) auto
  qed
qed

lemma create_directories_issued:
  "create_directories w p = (ok, w') \<Longrightarrow> issued w' = issued w"
  unfolding create_directories_def by (rule make_dirs_issued)

lemma ensure_build_description_issued:
  "ensure_build_description project_root project_name w = (ok, w') \<Longrightarrow> issued w' = issued w"
  by (auto simp: ensure_build_description_def Let_def split: if_splits)

lemma configure_and_build_cases:
  assumes "configure_and_build h mode project_root bdir tdir project_name w = ((rc, exe), w')"
  shows
    "(\<exists>r. issued w' = issued w @ [(cmake_configure_cmd h mode project_root bdir, r)] \<and> r \<noteq> 0 \<and>
          rc = EXIT_FAILURE \<and> exe = None) \<or>
     (\<exists>r. issued w' = issued w @ [(cmake_configure_cmd h mode project_root bdir, 0),
            (cmake_build_cmd h mode bdir, r)] \<and> r \<noteq> 0 \<and> rc = EXIT_FAILURE \<and> exe = None) \<or>
     (issued w' = issued w @ [(cmake_configure_cmd h mode project_root bdir, 0),
            (cmake_build_cmd h mode bdir, 0)] \<and>
        rc = EXIT_SUCCESS \<and> exe = Some (get_executable_path (platform h) tdir project_name))"
  using assms
  by (auto simp: configure_and_build_def system_call_def Let_def split: prod.splits if_splits)

lemma build_in_root_cases:
  assumes "build_in_root h release_mode project_root project_name w = ((rc, exe), w')"
  shows
    "(issued w' = issued w \<and> rc = EXIT_FAILURE \<and> exe = None) \<or>
     (\<exists>r. issued w' = issued w @
            [(cmake_configure_cmd h (build_mode_of release_mode) project_root
                (build_dir_of project_root release_mode), r)] \<and>
          r \<noteq> 0 \<and> rc = EXIT_FAILURE \<and> exe = None) \<or>
     (\<exists>r. issued w' = issued w @
            [(cmake_configure_cmd h (build_mode_of release_mode) project_root
                (build_dir_of project_root release_mode), 0),
             (cmake_build_cmd h (build_mode_of release_mode)
                (build_dir_of project_root release_mode), r)] \<and>
          r \<noteq> 0 \<and> rc = EXIT_FAILURE \<and> exe = None) \<or>
     (issued w' = issued w @
            [(cmake_configure_cmd h (build_mode_of release_mode) project_root
                (build_dir_of project_root release_mode), 0),
             (cmake_build_cmd h (build_mode_of release_mode)
                (build_dir_of project_root release_mode), 0)] \<and>
        rc = EXIT_SUCCESS \<and>
        exe = Some (get_executable_path (platform h) (target_dir_of project_root release_mode)
                 project_name))"
proof (cases "create_directories w (target_dir_of project_root release_mode)")
  case (Pair ok1 w1)
  note c1 = create_directories_issued [OF Pair]
  show ?thesis
  proof (cases ok1)
    case False
    with assms Pair c1 show ?thesis
      by (auto simp: build_in_root_def)
  next
    case True
    show ?thesis
    proof (cases "ensure_build_description project_root project_name w1")
      case e: (Pair ok2 w2)
      note c2 = ensure_build_description_issued [OF e]
      show ?thesis
      proof (cases ok2)
        case False
        with assms Pair True e c1 c2 show ?thesis
          by (auto simp: build_in_root_def)
      next
        case ok2: True
        show ?thesis
        proof (cases "create_directories w2 (build_dir_of project_root release_mode)")
          case d: (Pair ok3 w3)
          note c3 = create_directories_issued [OF d]
          show ?thesis
          proof (cases ok3)
            case False
            with assms Pair True e ok2 d c1 c2 c3 show ?thesis
              by (auto simp: build_in_root_def)
          next
            case ok3: True
            from assms Pair True e ok2 d ok3
            have "configure_and_build h (build_mode_of release_mode) project_root
                (build_dir_of project_root release_mode) (target_dir_of project_root release_mode)
                project_name w3 = ((rc, exe), w')"
              by (simp add: build_in_root_def)
            from configure_and_build_cases [OF this] c1 c2 c3 show ?thesis
              by simp
          qed
        qed
      qed
    qed
  qed
qed

lemma build_project_cases:
  assumes "build_project h release_mode w = ((rc, exe), w')"
  shows
    "(issued w' = issued w \<and> rc = EXIT_FAILURE \<and> exe = None) \<or>
     (\<exists>project_root r. issued w' = issued w @
            [(cmake_configure_cmd h (build_mode_of release_mode) project_root
                (build_dir_of project_root release_mode), r)] \<and>
          r \<noteq> 0 \<and> rc = EXIT_FAILURE \<and> exe = None) \<or>
     (\<exists>project_root r. issued w' = issued w @
            [(cmake_configure_cmd h (build_mode_of release_mode) project_root
                (build_dir_of project_root release_mode), 0),
             (cmake_build_cmd h (build_mode_of release_mode)
                (build_dir_of project_root release_mode), r)] \<and>
          r \<noteq> 0 \<and> rc = EXIT_FAILURE \<and> exe = None) \<or>
     (\<exists>project_root project_name. issued w' = issued w @
            [(cmake_configure_cmd h (build_mode_of release_mode) project_root
                (build_dir_of project_root release_mode), 0),
             (cmake_build_cmd h (build_mode_of release_mode)
                (build_dir_of project_root release_mode), 0)] \<and>
        rc = EXIT_SUCCESS \<and>
        exe = Some (get_executable_path (platform h) (target_dir_of project_root release_mode)
                 project_name))"
proof (cases "locate_root (path_exists w) (cwd w)")
  case None
  with assms show ?thesis
    by (auto simp: build_project_def)
next
  case (Some project_root)
  show ?thesis
  proof (cases "read_project_name (platform h) (files w) (path_append project_root ''Sail.toml'')")
    case (Inl e)
    with assms Some show ?thesis
      by (cases e) (auto simp: build_project_def)
  next
    case (Inr project_name)
    show ?thesis
    proof (cases "path_exists w (path_append project_root ''src'')")
      case False
      with assms Some Inr show ?thesis
        by (auto simp: build_project_def)
    next
      case True
      with assms Some Inr
      have "build_in_root h release_mode project_root project_name w = ((rc, exe), w')"
        by (simp add: build_project_def)
      from build_in_root_cases [OF this] show ?thesis
        by blast
    qed
  qed
qed


lemma configure_and_build_by_exit_codes:
  "configure_and_build h mode project_root bdir tdir project_name w =
     (let cfg = cmake_configure_cmd h mode project_root bdir;
          bld = cmake_build_cmd h mode bdir;
          c1 = execute h cfg (files w);
          c2 = execute h bld (snd c1)
      in if fst c1 \<noteq> 0
         then ((EXIT_FAILURE, None),
               print Err_configure (w\<lparr>files := snd c1, issued := issued w @ [(cfg, fst c1)]\<rparr>))
         else if fst c2 \<noteq> 0
         then ((EXIT_FAILURE, None),
               print Err_build
                 (w\<lparr>files := snd c2, issued := issued w @ [(cfg, 0), (bld, fst c2)]\<rparr>))
         else ((EXIT_SUCCESS, Some (get_executable_path (platform h) tdir project_name)),
               w\<lparr>files := snd c2, issued := issued w @ [(cfg, 0), (bld, 0)]\<rparr>))"
  by (auto simp: configure_and_build_def system_call_def Let_def split: prod.splits)

text \<open>
  Claim C7: when the configure command exits with a nonzero status, it is the only
  command issued and the orchestrator fails; when it exits with 0 and the build
  command does not, the orchestrator fails and returns no path; in every run of
  \<^verbatim>\<open>build_project\<close> a path is returned only after both commands were issued and both
  exited with 0.
\<close>

theorem toolchain_short_circuit:
  "(fst (execute h (cmake_configure_cmd h mode project_root bdir) (files w0)) \<noteq> 0 \<longrightarrow>
      fst (configure_and_build h mode project_root bdir tdir project_name w0) = (EXIT_FAILURE, None) \<and>
      map fst (issued (snd (configure_and_build h mode project_root bdir tdir project_name w0)))
        = map fst (issued w0) @ [cmake_configure_cmd h mode project_root bdir]) \<and>
   (fst (execute h (cmake_configure_cmd h mode project_root bdir) (files w0)) = 0 \<and>
    fst (execute h (cmake_build_cmd h mode bdir)
          (snd (execute h (cmake_configure_cmd h mode project_root bdir) (files w0)))) \<noteq> 0 \<longrightarrow>
      fst (configure_and_build h mode project_root bdir tdir project_name w0) = (EXIT_FAILURE, None)) \<and>
   (build_project h release_mode w = ((rc, exe), w') \<longrightarrow>
     (issued w' = issued w \<and> rc = EXIT_FAILURE \<and> exe = None) \<or>
     (\<exists>project_root r. issued w' = issued w @
            [(cmake_configure_cmd h (build_mode_of release_mode) project_root
                (build_dir_of project_root release_mode), r)] \<and>
          r \<noteq> 0 \<and> rc = EXIT_FAILURE \<and> exe = None) \<or>
     (\<exists>project_root r. issued w' = issued w @
            [(cmake_configure_cmd h (build_mode_of release_mode) project_root
                (build_dir_of project_root release_mode), 0),
             (cmake_build_cmd h (build_mode_of release_mode)
                (build_dir_of project_root release_mode), r)] \<and>
          r \<noteq> 0 \<and> rc = EXIT_FAILURE \<and> exe = None) \<or>
     (\<exists>project_root project_name. issued w' = issued w @
            [(cmake_configure_cmd h (build_mode_of release_mode) project_root
                (build_dir_of project_root release_mode), 0),
             (cmake_build_cmd h (build_mode_of release_mode)
                (build_dir_of project_root release_mode), 0)] \<and>
        rc = EXIT_SUCCESS \<and>
        exe = Some (get_executable_path (platform h) (target_dir_of project_root release_mode)
                 project_name)))"
proof (intro conjI impI)
  assume "fst (execute h (cmake_configure_cmd h mode project_root bdir) (files w0)) \<noteq> 0"
  then show "fst (configure_and_build h mode project_root bdir tdir project_name w0)
      = (EXIT_FAILURE, None)"
    by (simp add: configure_and_build_by_exit_codes Let_def)
next
  assume "fst (execute h (cmake_configure_cmd h mode project_root bdir) (files w0)) \<noteq> 0"
  then show "map fst (issued (snd (configure_and_build h mode project_root bdir tdir project_name w0)))
        = map fst (issued w0) @ [cmake_configure_cmd h mode project_root bdir]"
    by (simp add: configure_and_build_by_exit_codes Let_def)
next
  assume "fst (execute h (cmake_configure_cmd h mode project_root bdir) (files w0)) = 0 \<and>
    fst (execute h (cmake_build_cmd h mode bdir)
          (snd (execute h (cmake_configure_cmd h mode project_root bdir) (files w0)))) \<noteq> 0"
  then show "fst (configure_and_build h mode project_root bdir tdir project_name w0)
      = (EXIT_FAILURE, None)"
    by (simp add: configure_and_build_by_exit_codes Let_def)
next
  assume "build_project h release_mode w = ((rc, exe), w')"
  then show "(issued w' = issued w \<and> rc = EXIT_FAILURE \<and> exe = None) \<or>
     (\<exists>project_root r. issued w' = issued w @
            [(cmake_configure_cmd h (build_mode_of release_mode) project_root
                (build_dir_of project_root release_mode), r)] \<and>
          r \<noteq> 0 \<and> rc = EXIT_FAILURE \<and> exe = None) \<or>
     (\<exists>project_root r. issued w' = issued w @
            [(cmake_configure_cmd h (build_mode_of release_mode) project_root
                (build_dir_of project_root release_mode), 0),
             (cmake_build_cmd h (build_mode_of release_mode)
                (build_dir_of project_root release_mode), r)] \<and>
          r \<noteq> 0 \<and> rc = EXIT_FAILURE \<and> exe = None) \<or>
     (\<exists>project_root project_name. issued w' = issued w @
            [(cmake_configure_cmd h (build_mode_of release_mode) project_root
                (build_dir_of project_root release_mode), 0),
             (cmake_build_cmd h (build_mode_of release_mode)
                (build_dir_of project_root release_mode), 0)] \<and>
        rc = EXIT_SUCCESS \<and>
        exe = Some (get_executable_path (platform h) (target_dir_of project_root release_mode)
                 project_name))"
    by (rule build_project_cases)
qed

text \<open>A toolchain whose configure step fails, and one whose build step fails.\<close>

theorem toolchain_short_circuit_witness:
  "fst (configure_and_build (scripted_host 2 0) ''Release'' [''work'', ''demo'']
          (build_dir_of [''work'', ''demo''] True) (target_dir_of [''work'', ''demo''] True)
          ''demo'' demo_world) = (EXIT_FAILURE, None) \<and>
   fst (configure_and_build (scripted_host 0 3) ''Release'' [''work'', ''demo'']
          (build_dir_of [''work'', ''demo''] True) (target_dir_of [''work'', ''demo''] True)
          ''demo'' demo_world) = (EXIT_FAILURE, None) \<and>
   fst (build_project (scripted_host 2 0) True demo_world) = (EXIT_FAILURE, None) \<and>
   issued (snd (build_project (scripted_host 2 0) True demo_world)) =
     [(''cmake -DCMAKE_BUILD_TYPE=Release -S /work/demo -B /work/demo/target/release/build'', 2)] \<and>
   fst (build_project (scripted_host 0 3) True demo_world) = (EXIT_FAILURE, None) \<and>
   map snd (issued (snd (build_project (scripted_host 0 3) True demo_world))) = [0, 3]"
proof -
  let ?root = "[''work'', ''demo'']"
  let ?bdir = "build_dir_of ?root True"
  let ?tdir = "target_dir_of ?root True"
  have c1: "fst (execute (scripted_host 2 0)
      (cmake_configure_cmd (scripted_host 2 0) ''Release'' ?root ?bdir) (files demo_world)) \<noteq> 0"
    by code_simp
  have c2: "fst (execute (scripted_host 0 3)
      (cmake_configure_cmd (scripted_host 0 3) ''Release'' ?root ?bdir) (files demo_world)) = 0 \<and>
    fst (execute (scripted_host 0 3) (cmake_build_cmd (scripted_host 0 3) ''Release'' ?bdir)
      (snd (execute (scripted_host 0 3)
        (cmake_configure_cmd (scripted_host 0 3) ''Release'' ?root ?bdir) (files demo_world)))) \<noteq> 0"
    by code_simp
  have a: "fst (configure_and_build (scripted_host 2 0) ''Release'' ?root ?bdir ?tdir ''demo''
      demo_world) = (EXIT_FAILURE, None)"
    using toolchain_short_circuit
      [of "scripted_host 2 0" "''Release''" ?root ?bdir demo_world ?tdir "''demo''",
        THEN conjunct1] c1
    by blast
  have b: "fst (configure_and_build (scripted_host 0 3) ''Release'' ?root ?bdir ?tdir ''demo''
      demo_world) = (EXIT_FAILURE, None)"
    using toolchain_short_circuit
      [of "scripted_host 0 3" "''Release''" ?root ?bdir demo_world ?tdir "''demo''",
        THEN conjunct2, THEN conjunct1] c2
    by blast
  have log: "issued (snd (build_project (scripted_host 2 0) True demo_world)) =
     [(''cmake -DCMAKE_BUILD_TYPE=Release -S /work/demo -B /work/demo/target/release/build'', 2)]"
    by code_simp
  have log0: "issued demo_world = []"
    by (simp add: demo_world_def)
  have codes: "map snd (issued (snd (build_project (scripted_host 0 3) True demo_world))) = [0, 3]"
    by code_simp
  have r1: "build_project (scripted_host 2 0) True demo_world =
      ((fst (fst (build_project (scripted_host 2 0) True demo_world)),
        snd (fst (build_project (scripted_host 2 0) True demo_world))),
       snd (build_project (scripted_host 2 0) True demo_world))"
    by simp
  have r2: "build_project (scripted_host 0 3) True demo_world =
      ((fst (fst (build_project (scripted_host 0 3) True demo_world)),
        snd (fst (build_project (scripted_host 0 3) True demo_world))),
       snd (build_project (scripted_host 0 3) True demo_world))"
    by simp
  from toolchain_short_circuit [THEN conjunct2, THEN conjunct2, rule_format, OF r1] log log0
  have c: "fst (build_project (scripted_host 2 0) True demo_world) = (EXIT_FAILURE, None)"
    by (auto simp: prod_eq_iff)
  from toolchain_short_circuit [THEN conjunct2, THEN conjunct2, rule_format, OF r2] codes log0
  have d: "fst (build_project (scripted_host 0 3) True demo_world) = (EXIT_FAILURE, None)"
    by (auto simp: prod_eq_iff)
  from a b c log d codes show ?thesis
    by (intro conjI)
qed

section \<open>Artifact existence in the command handlers\<close>

lemma handle_run_command_after_success:
  assumes "build_project h run_release (print (Msg_compiling_mode run_release) w)
      = ((EXIT_SUCCESS, Some exe), w1)"
  shows "handle_run_command h run_release run_args w =
     (if \<not> path_exists w1 exe
      then (EXIT_FAILURE, print (Err_executable_not_found (path_string h exe)) w1)
      else system_call h
             (foldl (\<lambda>cmd arg. cmd @ '' '' @ quote_path (platform h) arg)
                (quote_path (platform h) (path_string h exe)) run_args)
             (print (Msg_running (if exe = [] then [] else last exe)) w1))"
  using assms
  by (simp add: handle_run_command_def opt_exists_def opt_string_def opt_filename_def Let_def)

lemma handle_build_command_after_success:
  assumes "build_project h build_release (print Msg_compiling (print Msg_configuring w))
      = ((EXIT_SUCCESS, Some exe), w2)"
  shows "handle_build_command h build_release w =
     (if path_exists w2 exe then (EXIT_SUCCESS, print (Msg_finished build_release) w2)
      else (EXIT_SUCCESS, print Warn_executable_not_found w2))"
  using assms
  by (simp add: handle_build_command_def opt_exists_def Let_def)

text \<open>
  Claim C8: the orchestrator succeeds with the artifact path as soon as both commands
  exit with 0, whatever the file system holds at that path; after such a success with
  the artifact absent, the run flow fails with an error and runs nothing, while the
  build flow prints a warning and exits successfully.
\<close>

theorem artifact_existence_policy:
  "(fst (execute h (cmake_configure_cmd h mode project_root bdir) (files w0)) = 0 \<and>
    fst (execute h (cmake_build_cmd h mode bdir)
          (snd (execute h (cmake_configure_cmd h mode project_root bdir) (files w0)))) = 0 \<longrightarrow>
      fst (configure_and_build h mode project_root bdir tdir project_name w0)
        = (EXIT_SUCCESS, Some (get_executable_path (platform h) tdir project_name))) \<and>
   (build_project h release (print (Msg_compiling_mode release) w) = ((EXIT_SUCCESS, Some exe), w1) \<and>
    \<not> path_exists w1 exe \<longrightarrow>
      handle_run_command h release run_args w
        = (EXIT_FAILURE, print (Err_executable_not_found (path_string h exe)) w1)) \<and>
   (build_project h release (print Msg_compiling (print Msg_configuring w))
      = ((EXIT_SUCCESS, Some exe), w2) \<and>
    \<not> path_exists w2 exe \<longrightarrow>
      handle_build_command h release w = (EXIT_SUCCESS, print Warn_executable_not_found w2))"
proof (intro conjI impI)
  assume "fst (execute h (cmake_configure_cmd h mode project_root bdir) (files w0)) = 0 \<and>
    fst (execute h (cmake_build_cmd h mode bdir)
          (snd (execute h (cmake_configure_cmd h mode project_root bdir) (files w0)))) = 0"
  then show "fst (configure_and_build h mode project_root bdir tdir project_name w0)
        = (EXIT_SUCCESS, Some (get_executable_path (platform h) tdir project_name))"
    by (simp add: configure_and_build_by_exit_codes Let_def)
next
  assume "build_project h release (print (Msg_compiling_mode release) w)
      = ((EXIT_SUCCESS, Some exe), w1) \<and> \<not> path_exists w1 exe"
  then show "handle_run_command h release run_args w
        = (EXIT_FAILURE, print (Err_executable_not_found (path_string h exe)) w1)"
    using handle_run_command_after_success [of h release w exe w1 run_args] by simp
next
  assume "build_project h release (print Msg_compiling (print Msg_configuring w))
      = ((EXIT_SUCCESS, Some exe), w2) \<and> \<not> path_exists w2 exe"
  then show "handle_build_command h release w = (EXIT_SUCCESS, print Warn_executable_not_found w2)"
    using handle_build_command_after_success [of h release w exe w2] by simp
qed

text \<open>A toolchain that reports success and produces no executable.\<close>

theorem artifact_existence_policy_witness:
  "fst (configure_and_build (scripted_host 0 0) ''Debug'' [''work'', ''demo'']
          (build_dir_of [''work'', ''demo''] False) (target_dir_of [''work'', ''demo''] False)
          ''demo'' demo_world)
     = (EXIT_SUCCESS,
        Some (get_executable_path Posix (target_dir_of [''work'', ''demo''] False) ''demo'')) \<and>
   fst (build_project (scripted_host 0 0) False (print (Msg_compiling_mode False) demo_world))
     = (EXIT_SUCCESS, Some [''work'', ''demo'', ''target'', ''debug'', ''demo'']) \<and>
   fst (handle_run_command (scripted_host 0 0) False [] demo_world) = EXIT_FAILURE \<and>
   printed (snd (handle_run_command (scripted_host 0 0) False [] demo_world))
     = [Msg_compiling_mode False, Err_executable_not_found ''/work/demo/target/debug/demo''] \<and>
   length (issued (snd (handle_run_command (scripted_host 0 0) False [] demo_world))) = 2 \<and>
   fst (handle_build_command (scripted_host 0 0) False demo_world) = EXIT_SUCCESS \<and>
   printed (snd (handle_build_command (scripted_host 0 0) False demo_world))
     = [Msg_configuring, Msg_compiling, Warn_executable_not_found]"
proof -
  let ?exe = "[''work'', ''demo'', ''target'', ''debug'', ''demo'']"
  let ?r = "build_project (scripted_host 0 0) False (print (Msg_compiling_mode False) demo_world)"
  let ?b = "build_project (scripted_host 0 0) False (print Msg_compiling (print Msg_configuring demo_world))"
  have r: "fst ?r = (EXIT_SUCCESS, Some ?exe)"
    by code_simp
  have b: "fst ?b = (EXIT_SUCCESS, Some ?exe)"
    by code_simp
  have nr: "\<not> path_exists (snd ?r) ?exe"
    by code_simp
  have nb: "\<not> path_exists (snd ?b) ?exe"
    by code_simp
  have pr: "printed (snd ?r) = [Msg_compiling_mode False]"
    by code_simp
  have pb: "printed (snd ?b) = [Msg_configuring, Msg_compiling]"
    by code_simp
  have ir: "length (issued (snd ?r)) = 2"
    by code_simp
  have s: "path_string (scripted_host 0 0) ?exe = ''/work/demo/target/debug/demo''"
    by code_simp
  have r': "?r = ((EXIT_SUCCESS, Some ?exe), snd ?r)"
    using r by (simp add: prod_eq_iff)
  have b': "?b = ((EXIT_SUCCESS, Some ?exe), snd ?b)"
    using b by (simp add: prod_eq_iff)
  from artifact_existence_policy [of "scripted_host 0 0" _ _ _ _ _ _ False demo_world ?exe "snd ?r" "[]",
      THEN conjunct2, THEN conjunct1] r' nr
  have run: "handle_run_command (scripted_host 0 0) False [] demo_world
      = (EXIT_FAILURE, print (Err_executable_not_found (path_string (scripted_host 0 0) ?exe)) (snd ?r))"
    by blast
  from artifact_existence_policy [of "scripted_host 0 0" _ _ _ _ _ _ False demo_world ?exe _ _ "snd ?b",
      THEN conjunct2, THEN conjunct2] b' nb
  have build: "handle_build_command (scripted_host 0 0) False demo_world
      = (EXIT_SUCCESS, print Warn_executable_not_found (snd ?b))"
    by blast
  have ok: "fst (execute (scripted_host 0 0)
      (cmake_configure_cmd (scripted_host 0 0) ''Debug'' [''work'', ''demo'']
        (build_dir_of [''work'', ''demo''] False)) (files demo_world)) = 0 \<and>
    fst (execute (scripted_host 0 0)
      (cmake_build_cmd (scripted_host 0 0) ''Debug'' (build_dir_of [''work'', ''demo''] False))
      (snd (execute (scripted_host 0 0)
        (cmake_configure_cmd (scripted_host 0 0) ''Debug'' [''work'', ''demo'']
          (build_dir_of [''work'', ''demo''] False)) (files demo_world)))) = 0"
    by code_simp
  have pf: "platform (scripted_host 0 0) = Posix"
    by (simp add: scripted_host_def)
  have orchestrator: "fst (configure_and_build (scripted_host 0 0) ''Debug'' [''work'', ''demo'']
      (build_dir_of [''work'', ''demo''] False) (target_dir_of [''work'', ''demo''] False)
      ''demo'' demo_world)
    = (EXIT_SUCCESS,
       Some (get_executable_path Posix (target_dir_of [''work'', ''demo''] False) ''demo''))"
    using artifact_existence_policy
      [of "scripted_host 0 0" "''Debug''" "[''work'', ''demo'']"
        "build_dir_of [''work'', ''demo''] False" demo_world
        "target_dir_of [''work'', ''demo''] False" "''demo''", THEN conjunct1] ok
    unfolding pf by blast
  show ?thesis
    unfolding run build using orchestrator r pr pb ir s by (simp add: print_def)
qed

end
